theory Spec2Isabelle
  imports
    Complex_Main
    "HOL-Library.Sublist"
    "HOL-Library.Char_ord"
    "HOL-Library.List_Lexorder"
    "HOL-Library.Log_Nat"
begin

section \<open>Python values and strings\<close>

text \<open>
  A Python \<open>str\<close> is modelled as a \<open>string\<close> whose characters are the code points
  0..255 (the Latin-1 repertoire, which holds every Spanish letter): one \<open>char\<close> per code
  point, so \<open>length\<close> is Python's \<open>len\<close>. Texts with code points beyond 255 are outside
  the model. A cell of a table is a string, \<open>None\<close> or a float NaN.
\<close>

datatype cell = PyNone | PyNaN | PyStr string

text \<open>\<open>pd.isna\<close> on a scalar.\<close>

fun pd_isna :: "cell \<Rightarrow> bool" where
  "pd_isna PyNone = True"
| "pd_isna PyNaN = True"
| "pd_isna (PyStr s) = False"

text \<open>\<open>str(x)\<close>.\<close>

fun py_str :: "cell \<Rightarrow> string" where
  "py_str PyNone = ''None''"
| "py_str PyNaN = ''nan''"
| "py_str (PyStr s) = s"

text \<open>
  \<open>str.lower()\<close> on code points 0..255: A..Z and the upper-case letters 0xC0..0xDE
  (without the multiplication sign 0xD7) move up by 32; every other character stays.
\<close>

definition py_lower_char :: "char \<Rightarrow> char" where
  "py_lower_char c =
     (let n = (of_char c :: nat) in
      if (65 \<le> n \<and> n \<le> 90) \<or> (192 \<le> n \<and> n \<le> 222 \<and> n \<noteq> 215)
      then char_of (n + 32) else c)"

definition py_lower :: "string \<Rightarrow> string" where
  "py_lower s = map py_lower_char s"

text \<open>\<open>str.isspace()\<close> on code points 0..255, the characters \<open>str.strip()\<close> removes.\<close>

definition py_isspace :: "char \<Rightarrow> bool" where
  "py_isspace c =
     (let n = (of_char c :: nat) in
      (9 \<le> n \<and> n \<le> 13) \<or> (28 \<le> n \<and> n \<le> 32) \<or> n = 133 \<or> n = 160)"

definition py_strip :: "string \<Rightarrow> string" where
  "py_strip s = rev (dropWhile py_isspace (rev (dropWhile py_isspace s)))"

text \<open>\<open>old in s\<close> for strings: \<open>sub\<close> occurs in \<open>s\<close> as a contiguous substring.\<close>

fun py_in :: "string \<Rightarrow> string \<Rightarrow> bool" where
  "py_in sub [] = (sub = [])"
| "py_in sub (c # cs) = (prefix sub (c # cs) \<or> py_in sub cs)"

text \<open>\<open>s.replace(old, new)\<close> for one-character \<open>old\<close> and \<open>new\<close>.\<close>

definition py_replace :: "char \<Rightarrow> char \<Rightarrow> string \<Rightarrow> string" where
  "py_replace old new s = map (\<lambda>c. if c = old then new else c) s"

text \<open>The accented letters the sources name, by code point.\<close>

abbreviation a_acute :: char where "a_acute \<equiv> CHR 0xE1"
abbreviation e_acute :: char where "e_acute \<equiv> CHR 0xE9"
abbreviation i_acute :: char where "i_acute \<equiv> CHR 0xED"
abbreviation o_acute :: char where "o_acute \<equiv> CHR 0xF3"
abbreviation u_acute :: char where "u_acute \<equiv> CHR 0xFA"
abbreviation n_tilde :: char where "n_tilde \<equiv> CHR 0xF1"
abbreviation u_diaeresis :: char where "u_diaeresis \<equiv> CHR 0xFC"

section \<open>Cognitive level resolution (src/src/analyzer.py, src/config.py)\<close>

text \<open>
  \<open>TAXONOMIA_BLOOM\<close> of config.py: level name, level number and verb list, in the
  dictionary's insertion order.
\<close>

definition TAXONOMIA_BLOOM :: "(string \<times> int \<times> string list) list" where
  "TAXONOMIA_BLOOM =
    [(''RECORDAR'', 1,
        [''definir'', ''listar'', ''recordar'', ''identificar'', ''nombrar'',
         ''reconocer'', ''reproducir'', ''seleccionar'', ''enumerar'']),
     (''COMPRENDER'', 2,
        [''explicar'', ''describir'', ''interpretar'', ''resumir'', ''clasificar'',
         ''comparar'', ''ejemplificar'', ''parafrasear'', ''ilustrar'']),
     (''APLICAR'', 3,
        [''aplicar'', ''ejecutar'', ''implementar'', ''usar'', ''utilizar'',
         ''demostrar'', ''resolver'', ''calcular'', ''operar'']),
     (''ANALIZAR'', 4,
        [''analizar'', ''diferenciar'', ''organizar'', ''atribuir'', ''comparar'',
         ''contrastar'', ''examinar'', ''investigar'', ''categorizar'']),
     (''EVALUAR'', 5,
        [''evaluar'', ''criticar'', ''juzgar'', ''verificar'', ''validar'',
         ''argumentar'', ''defender'', ''apoyar'', ''justificar'']),
     (''CREAR'', 6,
        [''crear'', ''dise'' @ [n_tilde] @ ''ar'', ''construir'', ''planificar'', ''producir'',
         ''generar'', ''desarrollar'', ''formular'', ''proponer''])]"

text \<open>
  The loop over \<open>TAXONOMIA_BLOOM.items()\<close> in \<open>_get_nivel_taxonomico\<close>: the level of the
  first entry whose lower-cased verb list holds the verb, \<open>None\<close> when the loop ends
  without a \<open>return\<close>.
\<close>

fun buscar_verbo :: "(string \<times> int \<times> string list) list \<Rightarrow> string \<Rightarrow> int option" where
  "buscar_verbo [] verbo_lower = None"
| "buscar_verbo ((nivel_nombre, nivel, verbos) # resto) verbo_lower =
     (let verbos_nivel = map py_lower verbos in
      if verbo_lower \<in> set verbos_nivel then Some nivel
      else buscar_verbo resto verbo_lower)"

text \<open>The \<open>if\<close>/\<open>elif\<close> chain over the declared domain level, \<open>None\<close> when no branch fires.\<close>

definition inferir_de_dominio :: "string \<Rightarrow> int option" where
  "inferir_de_dominio nivel_str =
     (if py_in ''analisis'' nivel_str \<or> py_in ''analis'' nivel_str then Some 4
      else if py_in ''evalua'' nivel_str \<or> py_in ''critica'' nivel_str then Some 5
      else if py_in ''crea'' nivel_str \<or> py_in (''dise'' @ [n_tilde] @ ''a'') nivel_str then Some 6
      else if py_in ''aplic'' nivel_str then Some 3
      else if py_in ''comprend'' nivel_str \<or> py_in ''entiend'' nivel_str then Some 2
      else None)"

definition get_nivel_taxonomico :: "cell \<Rightarrow> cell \<Rightarrow> int" where
  "get_nivel_taxonomico verbo nivel_dominio =
     (if pd_isna verbo then 1
      else
        let verbo_lower = py_strip (py_lower (py_str verbo)) in
        case buscar_verbo TAXONOMIA_BLOOM verbo_lower of
          Some nivel \<Rightarrow> nivel
        | None \<Rightarrow>
            (case (if \<not> pd_isna nivel_dominio
                   then inferir_de_dominio (py_lower (py_str nivel_dominio))
                   else None) of
               Some nivel \<Rightarrow> nivel
             | None \<Rightarrow> 2))"

text \<open>Every verb of the taxonomy, lower-cased as the lookup compares it.\<close>

definition verbos_taxonomia :: "string list" where
  "verbos_taxonomia = concat (map (\<lambda>(nivel_nombre, nivel, verbos). map py_lower verbos) TAXONOMIA_BLOOM)"

text \<open>The declared domain level carries none of the substrings the fallback scans for.\<close>

definition sin_senal :: "string \<Rightarrow> bool" where
  "sin_senal nivel_str =
     (\<not> py_in ''analis'' nivel_str \<and> \<not> py_in ''evalua'' nivel_str \<and>
      \<not> py_in ''critica'' nivel_str \<and> \<not> py_in ''crea'' nivel_str \<and>
      \<not> py_in (''dise'' @ [n_tilde] @ ''a'') nivel_str \<and> \<not> py_in ''aplic'' nivel_str \<and>
      \<not> py_in ''comprend'' nivel_str \<and> \<not> py_in ''entiend'' nivel_str)"


section \<open>Thematic detection (src/src/thematic_detector.py, src/config.py)\<close>

text \<open>
  \<open>TEMATICAS\<close> of config.py, in the dictionary's insertion order: theme name and its
  \<open>'keywords'\<close> list. A theme entry without the key \<open>'keywords'\<close> reads as the empty list
  (\<open>config.get('keywords', [])\<close>). The \<open>'contexto_keywords'\<close> lists are read by no function
  of the detector.
\<close>

definition TEMATICAS :: "(string \<times> string list) list" where
  "TEMATICAS =
    [
     (''SOSTENIBILIDAD'',
       [''sostenibilidad'', ''sostenible'', ''sustentabilidad'', ''sustentable'',
        ''ambiental'', ''medio ambiente'', ''ecol'' @ [CHR 0xF3] @ ''gico'',
        ''ecolog'' @ [CHR 0xED] @ ''a'', ''cambio clim'' @ [CHR 0xE1] @ ''tico'',
        ''responsabilidad ambiental'', ''desarrollo sostenible'', ''ods'',
        ''objetivos de desarrollo sostenible'', ''huella de carbono'',
        ''econom'' @ [CHR 0xED] @ ''a circular'', ''verde'', ''green'']),
     (''INTELIGENCIA ARTIFICIAL'',
       [''inteligencia artificial'', ''ia'', ''ai'', ''machine learning'',
        ''aprendizaje autom'' @ [CHR 0xE1] @ ''tico'', ''deep learning'',
        ''aprendizaje profundo'', ''redes neuronales'', ''algoritmos'', ''big data'',
        ''ciencia de datos'', ''data science'', ''miner'' @ [CHR 0xED] @ ''a de datos'',
        ''nlp'', ''procesamiento de lenguaje natural'',
        ''visi'' @ [CHR 0xF3] @ ''n por computador'', ''chatbot'', ''gpt'', ''llm'']),
     (''RESPONSABILIDAD SOCIAL EMPRESARIAL'',
       [''responsabilidad social empresarial'', ''rse'', ''rsc'',
        ''responsabilidad corporativa'', [CHR 0xE9] @ ''tica empresarial'',
        ''gobierno corporativo'', ''stakeholders'', ''grupos de inter'' @ [CHR 0xE9] @ ''s'',
        ''valor compartido'', ''impacto social'', ''filantrop'' @ [CHR 0xED] @ ''a'',
        ''pacto global'', ''triple resultado'']),
     (''TRANSFORMACI'' @ [CHR 0xD3] @ ''N DIGITAL'',
       [''transformaci'' @ [CHR 0xF3] @ ''n digital'', ''digitalizaci'' @ [CHR 0xF3] @ ''n'',
        ''industria 4.0'', ''internet of things'', ''iot'', ''blockchain'',
        ''cloud computing'', ''nube'', ''big data'', ''anal'' @ [CHR 0xED] @ ''tica'',
        ''ciberseguridad'', ''automatizaci'' @ [CHR 0xF3] @ ''n'',
        ''robotizaci'' @ [CHR 0xF3] @ ''n'', ''erp'', ''crm'', ''e-commerce'',
        ''comercio electr'' @ [CHR 0xF3] @ ''nico'', ''fintech'']),
     (''INNOVACI'' @ [CHR 0xD3] @ ''N Y EMPRENDIMIENTO'',
       [''innovaci'' @ [CHR 0xF3] @ ''n'', ''emprendimiento'', ''emprendedor'', ''startup'',
        ''modelo de negocio'', ''canvas'', ''design thinking'', ''lean startup'',
        ''prototipado'', ''mvp'', ''producto m'' @ [CHR 0xED] @ ''nimo viable'', ''pitch'',
        ''escalabilidad'', ''disrupci'' @ [CHR 0xF3] @ ''n'', ''creatividad'',
        ''ideaci'' @ [CHR 0xF3] @ ''n'']),
     (''GLOBALIZACI'' @ [CHR 0xD3] @ ''N Y PERSPECTIVA GLOCAL'',
       [''globalizaci'' @ [CHR 0xF3] @ ''n'', ''glocal'', ''global'', ''internacional'',
        ''internacionalizaci'' @ [CHR 0xF3] @ ''n'', ''comercio internacional'',
        ''mercados globales'', ''multiculturalidad'', ''interculturalidad'',
        ''exportaci'' @ [CHR 0xF3] @ ''n'', ''importaci'' @ [CHR 0xF3] @ ''n'',
        ''tratados comerciales'', ''competitividad global'', ''cadena de valor global'']),
     ([CHR 0xC9] @ ''TICA Y VALORES'',
       [[CHR 0xE9] @ ''tica'', [CHR 0xE9] @ ''tico'', ''valores'', ''moral'', ''integridad'',
        ''transparencia'', ''honestidad'', ''responsabilidad'',
        ''c'' @ [CHR 0xF3] @ ''digo de '' @ [CHR 0xE9] @ ''tica'',
        ''dilema '' @ [CHR 0xE9] @ ''tico'', ''deontolog'' @ [CHR 0xED] @ ''a'',
        ''bio'' @ [CHR 0xE9] @ ''tica'', ''justicia'', ''equidad'', ''respeto'']),
     (''LIDERAZGO Y HABILIDADES BLANDAS'',
       [''liderazgo'', ''l'' @ [CHR 0xED] @ ''der'', ''trabajo en equipo'',
        ''comunicaci'' @ [CHR 0xF3] @ ''n'', ''soft skills'', ''habilidades blandas'',
        ''inteligencia emocional'', ''empat'' @ [CHR 0xED] @ ''a'',
        ''negociaci'' @ [CHR 0xF3] @ ''n'', ''resoluci'' @ [CHR 0xF3] @ ''n de conflictos'',
        ''pensamiento cr'' @ [CHR 0xED] @ ''tico'', ''creatividad'', ''adaptabilidad'',
        ''resiliencia'', ''colaboraci'' @ [CHR 0xF3] @ ''n'', ''asertividad'']),
     (''AN'' @ [CHR 0xC1] @ ''LISIS DE DATOS'',
       [''an'' @ [CHR 0xE1] @ ''lisis de datos'', ''anal'' @ [CHR 0xED] @ ''tica'',
        ''data analytics'', ''estad'' @ [CHR 0xED] @ ''stica'',
        ''visualizaci'' @ [CHR 0xF3] @ ''n de datos'', ''dashboard'', ''kpi'',
        ''indicadores'', ''m'' @ [CHR 0xE9] @ ''tricas'', ''business intelligence'', ''bi'',
        ''tablero de control'', ''python'', ''r'', ''sql'', ''excel avanzado'', ''power bi'',
        ''tableau'']),
     (''GESTI'' @ [CHR 0xD3] @ ''N DEL CAMBIO'',
       [''gesti'' @ [CHR 0xF3] @ ''n del cambio'', ''cambio organizacional'',
        ''transformaci'' @ [CHR 0xF3] @ ''n organizacional'', ''resistencia al cambio'',
        ''cultura organizacional'', ''desarrollo organizacional'', ''agilidad'',
        ''adaptaci'' @ [CHR 0xF3] @ ''n'', ''flexibilidad'', ''scrum'', ''agile''])]"

subsection \<open>The text normalizer\<close>

definition replacements :: "(char \<times> char) list" where
  "replacements =
     [(a_acute, CHR ''a''), (e_acute, CHR ''e''), (i_acute, CHR ''i''), (o_acute, CHR ''o''),
      (u_acute, CHR ''u''), (n_tilde, CHR ''n''), (u_diaeresis, CHR ''u'')]"

fun isinstance_str :: "cell \<Rightarrow> bool" where
  "isinstance_str (PyStr s) = True"
| "isinstance_str v = False"

definition normalize_text :: "cell \<Rightarrow> string" where
  "normalize_text text =
     (if pd_isna text \<or> \<not> isinstance_str text then []
      else foldl (\<lambda>t (old, new). py_replace old new t) (py_lower (py_str text)) replacements)"

subsection \<open>The regular expression of the matcher\<close>

text \<open>Python's \<open>\w\<close> for \<open>str\<close> patterns, on code points 0..255.\<close>

definition is_word_char :: "char \<Rightarrow> bool" where
  "is_word_char c =
     (let n = (of_char c :: nat) in
      (48 \<le> n \<and> n \<le> 57) \<or> (65 \<le> n \<and> n \<le> 90) \<or> n = 95 \<or> (97 \<le> n \<and> n \<le> 122) \<or>
      n = 170 \<or> n = 178 \<or> n = 179 \<or> n = 181 \<or> n = 185 \<or> n = 186 \<or>
      n = 188 \<or> n = 189 \<or> n = 190 \<or>
      (192 \<le> n \<and> n \<le> 214) \<or> (216 \<le> n \<and> n \<le> 246) \<or> 248 \<le> n)"

text \<open>
  \<open>\b\<close> at a position of the text: \<open>prev\<close> is the character before the position
  (\<open>None\<close> at the start), \<open>rest\<close> the text from the position on.
\<close>

definition word_boundary :: "char option \<Rightarrow> string \<Rightarrow> bool" where
  "word_boundary prev rest =
     ((case prev of None \<Rightarrow> False | Some p \<Rightarrow> is_word_char p) \<noteq>
      (case rest of [] \<Rightarrow> False | c # cs \<Rightarrow> is_word_char c))"

text \<open>
  The pattern \<open>r'\b' + re.escape(keyword) + r'\w*'\<close> tried at one position: the boundary,
  the keyword literally, then as many word characters as follow.
\<close>

definition match_at :: "string \<Rightarrow> char option \<Rightarrow> string \<Rightarrow> string option" where
  "match_at kw prev rest =
     (if word_boundary prev rest \<and> prefix kw rest
      then Some (kw @ takeWhile is_word_char (drop (length kw) rest))
      else None)"

text \<open>
  \<open>re.findall\<close>: the matches from left to right, without overlap. After a match the search
  goes on where the match ended; after an empty match (possible for an empty keyword only)
  and after a failed attempt it goes on one character further.
\<close>

function findall_from :: "string \<Rightarrow> char option \<Rightarrow> string \<Rightarrow> string list" where
  "findall_from kw prev rest =
     (case match_at kw prev rest of
        Some m \<Rightarrow>
          (if m = [] then
             (case rest of [] \<Rightarrow> [[]] | c # cs \<Rightarrow> [] # findall_from kw (Some c) cs)
           else m # findall_from kw (Some (last m)) (drop (length m) rest))
      | None \<Rightarrow>
          (case rest of [] \<Rightarrow> [] | c # cs \<Rightarrow> findall_from kw (Some c) cs))"
  by pat_completeness auto
termination
proof (relation "measure (\<lambda>(kw, prev, rest). length rest)")
  show "wf (measure (\<lambda>(kw, prev, rest). length rest))" by simp
next
  fix kw :: string and prev rest m c cs
  assume "match_at kw prev rest = Some m" "m = []" "rest = c # cs"
  then show "((kw, Some c, cs), kw, prev, rest) \<in> measure (\<lambda>(kw, prev, rest). length rest)"
    by simp
next
  fix kw :: string and prev rest m
  assume m: "match_at kw prev rest = Some m" "m \<noteq> []"
  then have "prefix kw rest" and "m = kw @ takeWhile is_word_char (drop (length kw) rest)"
    by (auto simp: match_at_def split: if_splits)
  with m(2) have "rest \<noteq> []" by auto
  with m(2) show "((kw, Some (last m), drop (length m) rest), kw, prev, rest)
      \<in> measure (\<lambda>(kw, prev, rest). length rest)"
    by (cases rest) auto
next
  fix kw :: string and prev rest c cs
  assume "match_at kw prev rest = None" "rest = c # cs"
  then show "((kw, Some c, cs), kw, prev, rest) \<in> measure (\<lambda>(kw, prev, rest). length rest)"
    by simp
qed

declare findall_from.simps [simp del]

definition re_findall :: "string \<Rightarrow> string \<Rightarrow> string list" where
  "re_findall keyword_normalized text_normalized =
     findall_from keyword_normalized None text_normalized"

text \<open>
  The start of the first match of \<open>re.finditer(re.escape(sub), s)\<close>: the first index at
  which \<open>sub\<close> occurs in \<open>s\<close>.
\<close>

fun first_position :: "string \<Rightarrow> string \<Rightarrow> nat option" where
  "first_position sub [] = (if sub = [] then Some 0 else None)"
| "first_position sub (c # cs) =
     (if prefix sub (c # cs) then Some 0 else map_option Suc (first_position sub cs))"

subsection \<open>The detector\<close>

record detector =
  tematicas_config :: "(string \<times> string list) list"
  context_window :: nat

text \<open>
  \<open>ThematicDetector.__init__\<close>: \<open>tematicas_config or TEMATICAS\<close> takes the default when the
  argument is \<open>None\<close> or an empty dictionary. Nothing else is checked.
\<close>

definition init_detector :: "(string \<times> string list) list option \<Rightarrow> nat \<Rightarrow> detector" where
  "init_detector tematicas_config_arg context_window_arg =
     \<lparr>tematicas_config =
        (case tematicas_config_arg of
           None \<Rightarrow> TEMATICAS
         | Some cfg \<Rightarrow> if cfg = [] then TEMATICAS else cfg),
      context_window = context_window_arg\<rparr>"

definition extract_context :: "string \<Rightarrow> string \<Rightarrow> nat \<Rightarrow> string" where
  "extract_context text keyword window =
     (let text_normalized = normalize_text (PyStr text);
          keyword_normalized = normalize_text (PyStr keyword)
      in case first_position keyword_normalized text_normalized of
           None \<Rightarrow> []
         | Some pos \<Rightarrow>
             (let start = pos - window;
                  fin = min (length text) (pos + length keyword + window);
                  context = drop start (take fin text);
                  context = (if start > 0 then ''...'' @ context else context);
                  context = (if fin < length text then context @ ''...'' else context)
              in py_strip context))"

record deteccion =
  presente :: bool
  num_coincidencias :: nat
  keywords_encontradas :: "string list"
  contexto :: string

text \<open>
  One turn of the loop over the keywords of a theme; the state is the pair of the lists
  \<open>keywords_encontradas\<close> and \<open>contextos\<close>.
\<close>

definition buscar_keyword ::
  "detector \<Rightarrow> string \<Rightarrow> string \<Rightarrow> bool \<Rightarrow> string list \<times> string list \<Rightarrow> string
     \<Rightarrow> string list \<times> string list" where
  "buscar_keyword self text text_normalized extract_ctx estado keyword =
     (let encontradas = fst estado;
          contextos = snd estado;
          keyword_normalized = normalize_text (PyStr keyword);
          matches = re_findall keyword_normalized text_normalized
      in if matches \<noteq> [] then
           (encontradas @ matches,
            if extract_ctx \<and> contextos = [] then
              (let ctx = extract_context text keyword (context_window self)
               in if ctx \<noteq> [] then contextos @ [ctx] else contextos)
            else contextos)
         else (encontradas, contextos))"

definition detect_tematica ::
  "detector \<Rightarrow> string \<Rightarrow> string \<Rightarrow> bool \<Rightarrow> string list \<Rightarrow> deteccion" where
  "detect_tematica self text text_normalized extract_ctx keywords =
     (let estado = foldl (buscar_keyword self text text_normalized extract_ctx) ([], []) keywords;
          encontradas = remdups (fst estado);
          contextos = snd estado;
          num = length encontradas
      in \<lparr>presente = (num > 0),
          num_coincidencias = num,
          keywords_encontradas = sort encontradas,
          contexto = (case contextos of [] \<Rightarrow> [] | c # cs \<Rightarrow> c)\<rparr>)"

text \<open>\<open>not text\<close> for a cell that is not missing: the empty string is falsy.\<close>

fun py_falsy :: "cell \<Rightarrow> bool" where
  "py_falsy PyNone = True"
| "py_falsy PyNaN = False"
| "py_falsy (PyStr s) = (s = [])"

definition detect_in_text :: "detector \<Rightarrow> cell \<Rightarrow> bool \<Rightarrow> (string \<times> deteccion) list" where
  "detect_in_text self text extract_ctx =
     (if pd_isna text \<or> py_falsy text then
        map (\<lambda>(tematica, keywords).
               (tematica, \<lparr>presente = False, num_coincidencias = 0,
                           keywords_encontradas = [], contexto = []\<rparr>))
            (tematicas_config self)
      else
        (let text_normalized = normalize_text text
         in map (\<lambda>(tematica, keywords).
                   (tematica,
                    detect_tematica self (py_str text) text_normalized extract_ctx keywords))
                (tematicas_config self)))"

text \<open>
  What the seven replacements do to one character, and the normalizer on one character.
\<close>

definition replace_char :: "char \<Rightarrow> char" where
  "replace_char c = (case map_of replacements c of Some new \<Rightarrow> new | None \<Rightarrow> c)"

definition normalize_char :: "char \<Rightarrow> char" where
  "normalize_char c = replace_char (py_lower_char c)"

text \<open>
  The distinct surface forms that the keywords of one theme match in a normalized text.
\<close>

definition surface_forms :: "string list \<Rightarrow> string \<Rightarrow> string set" where
  "surface_forms keywords text_normalized =
     (\<Union>keyword \<in> set keywords.
        set (re_findall (normalize_text (PyStr keyword)) text_normalized))"

text \<open>
  The meaning of the pattern \<open>r'\b' + re.escape(keyword) + r'\w*'\<close> after the
  documentation of the \<open>re\<close> module, stated without the search: in the text
  \<open>pre @ m @ post\<close> the pattern matches \<open>m\<close> at the position after \<open>pre\<close> when there is
  a word boundary at that position (of the character before and the character after,
  exactly one is a word character; a missing character counts as a non-word character),
  \<open>m\<close> is the keyword followed by word characters only, and no word character follows
  \<open>m\<close> (\<open>\w*\<close> takes as many characters as it can).
\<close>

definition pattern_match :: "string \<Rightarrow> string \<Rightarrow> string \<Rightarrow> string \<Rightarrow> bool" where
  "pattern_match kw pre m post \<longleftrightarrow>
     ((pre \<noteq> [] \<and> is_word_char (last pre)) \<noteq> (m @ post \<noteq> [] \<and> is_word_char (hd (m @ post)))) \<and>
     prefix kw m \<and>
     list_all is_word_char (drop (length kw) m) \<and>
     \<not> (post \<noteq> [] \<and> is_word_char (hd post))"



subsection \<open>Program analysis and the coverage matrix\<close>

text \<open>
  The output of the extractor for one program, as far as the detector reads it: the
  program name (\<open>metadata.programa\<close>) and the two tables. A table is modelled by its text
  column (\<open>'Redaccion competencia'\<close> of the competencies, \<open>'Resultados Aprendizaje'\<close> of the
  learning outcomes), one cell per row; a row without the column reads like a missing
  value, since \<open>concat_texts\<close> skips both. Theme names are taken to differ from the three
  fixed column names of the matrix.
\<close>

record programa_data =
  programa :: string
  competencias :: "cell list"
  resultados_aprendizaje :: "cell list"

text \<open>\<open>sep.join(xs)\<close>.\<close>

fun py_join :: "string \<Rightarrow> string list \<Rightarrow> string" where
  "py_join sep [] = []"
| "py_join sep [x] = x"
| "py_join sep (x # y # ys) = x @ sep @ py_join sep (y # ys)"

text \<open>
  \<open>concat_texts\<close> of \<open>detect_in_dataframe\<close>; the argument holds the values of the row in
  the text columns.
\<close>

definition concat_texts :: "cell list \<Rightarrow> string" where
  "concat_texts row = py_join '' '' (map py_str (filter (\<lambda>v. \<not> pd_isna v) row))"

text \<open>
  \<open>detect_in_dataframe\<close>: for every row the columns \<open>{TEMATICA}_presente\<close> and
  \<open>{TEMATICA}_coincidencias\<close> that the loop over the rows fills in.
\<close>

definition detect_in_dataframe ::
  "detector \<Rightarrow> cell list list \<Rightarrow> (string \<times> bool \<times> nat) list list" where
  "detect_in_dataframe self df =
     map (\<lambda>row.
            let deteccion = detect_in_text self (PyStr (concat_texts row)) False
            in map (\<lambda>(tematica, resultado).
                      (tematica, presente resultado, num_coincidencias resultado))
                   deteccion)
         df"

text \<open>\<open>df[f'{tematica}_presente'].sum()\<close>: a sum of booleans.\<close>

definition presente_sum :: "(string \<times> bool \<times> nat) list list \<Rightarrow> string \<Rightarrow> int" where
  "presente_sum df tematica =
     sum_list (map (\<lambda>fila. case map_of fila tematica of
                              Some (p, n) \<Rightarrow> if p then 1 else 0
                            | None \<Rightarrow> 0) df)"

record resumen_tematica =
  resumen_presente :: bool
  frecuencia_competencias :: int
  frecuencia_ra :: int
  total_coincidencias :: int

record analisis =
  analisis_programa :: string
  tematicas_presentes :: "string list"
  num_tematicas :: nat
  resumen :: "(string \<times> resumen_tematica) list"

text \<open>
  \<open>analyze_programa\<close>. A table is detected on only when it is not empty; the theme columns
  exist exactly then, so the frequency of an empty table stays 0.
\<close>

definition analyze_programa :: "detector \<Rightarrow> programa_data \<Rightarrow> analisis" where
  "analyze_programa self datos =
     (let df_comp = competencias datos;
          df_ra = resultados_aprendizaje datos;
          det_comp = (if df_comp \<noteq> []
                      then Some (detect_in_dataframe self (map (\<lambda>v. [v]) df_comp)) else None);
          det_ra = (if df_ra \<noteq> []
                    then Some (detect_in_dataframe self (map (\<lambda>v. [v]) df_ra)) else None);
          resumen_list =
            map (\<lambda>(tematica, keywords).
                   let freq_comp = (case det_comp of
                                      Some d \<Rightarrow> presente_sum d tematica | None \<Rightarrow> 0);
                       freq_ra = (case det_ra of
                                    Some d \<Rightarrow> presente_sum d tematica | None \<Rightarrow> 0);
                       total = freq_comp + freq_ra
                   in (tematica,
                       \<lparr>resumen_presente = (total > 0),
                        frecuencia_competencias = freq_comp,
                        frecuencia_ra = freq_ra,
                        total_coincidencias = total\<rparr>))
                (tematicas_config self);
          presentes = map fst (filter (\<lambda>(tematica, r). resumen_presente r) resumen_list)
      in \<lparr>analisis_programa = programa datos,
          tematicas_presentes = presentes,
          num_tematicas = length presentes,
          resumen = resumen_list\<rparr>)"

datatype py_error = KeyError string

record fila_matriz =
  Programa :: string
  Competencias :: int
  Resultados_Aprendizaje :: int
  frecuencias :: "(string \<times> int) list"

text \<open>The body of the loop over the programs in \<open>generate_thematic_matrix\<close>.\<close>

definition fila_programa :: "detector \<Rightarrow> programa_data \<Rightarrow> fila_matriz" where
  "fila_programa self datos =
     (let a = analyze_programa self datos
      in \<lparr>Programa = analisis_programa a,
          Competencias = int (length (competencias datos)),
          Resultados_Aprendizaje = int (length (resultados_aprendizaje datos)),
          frecuencias = map (\<lambda>(tematica, r). (tematica, total_coincidencias r)) (resumen a)\<rparr>)"

text \<open>The value of a row in the column of a theme.\<close>

definition celda :: "fila_matriz \<Rightarrow> string \<Rightarrow> int" where
  "celda fila tematica = (case map_of (frecuencias fila) tematica of Some n \<Rightarrow> n | None \<Rightarrow> 0)"

text \<open>
  \<open>generate_thematic_matrix\<close>. With no program, \<open>pd.DataFrame([])\<close> has no column and
  \<open>sort_values('Programa')\<close> raises \<open>KeyError\<close>. The rows are sorted by program name (rows
  with the same name are kept here in their order), then the row of totals is appended.
\<close>

definition generate_thematic_matrix ::
  "detector \<Rightarrow> programa_data list \<Rightarrow> py_error + fila_matriz list" where
  "generate_thematic_matrix self all_programas =
     (let rows = map (fila_programa self) all_programas
      in if rows = [] then Inl (KeyError ''Programa'')
         else
           (let df_matriz = sort_key Programa rows;
                totales =
                  \<lparr>Programa = ''TOTAL'',
                   Competencias = sum_list (map Competencias df_matriz),
                   Resultados_Aprendizaje = sum_list (map Resultados_Aprendizaje df_matriz),
                   frecuencias =
                     map (\<lambda>(tematica, keywords).
                            (tematica, sum_list (map (\<lambda>fila. celda fila tematica) df_matriz)))
                         (tematicas_config self)\<rparr>
            in Inr (df_matriz @ [totales])))"

text \<open>
  The records of a program, and the match count (\<open>num_coincidencias\<close>) of one record for a
  theme, as \<open>detect_in_dataframe\<close> computes it.
\<close>

definition registros :: "programa_data \<Rightarrow> cell list" where
  "registros datos = competencias datos @ resultados_aprendizaje datos"

definition coincidencias_registro :: "detector \<Rightarrow> string \<Rightarrow> cell \<Rightarrow> nat" where
  "coincidencias_registro self tematica v =
     (case map_of (detect_in_text self (PyStr (concat_texts [v])) False) tematica of
        Some r \<Rightarrow> num_coincidencias r
      | None \<Rightarrow> 0)"

text \<open>
  A small input on which the model is evaluated: a detector with one theme of two keywords
  and a program with one competency and no learning outcome.
\<close>

definition ejemplo_detector :: detector where
  "ejemplo_detector =
     init_detector (Some [(''SOSTENIBILIDAD'', [''sostenible'', ''ambiental''])]) 100"

definition ejemplo_programa :: programa_data where
  "ejemplo_programa =
     \<lparr>programa = ''Ing'',
      competencias = [PyStr ''Desarrollo sostenible y ambiental''],
      resultados_aprendizaje = []\<rparr>"

section \<open>Configuration validation (src/config.py)\<close>

text \<open>
  Python floats are modelled as real numbers here: sums, products and comparisons are
  exact.
\<close>

definition QUALITY_WEIGHTS :: "(string \<times> real) list" where
  "QUALITY_WEIGHTS =
     [(''completitud'', 0.25),
      (''complejidad_cognitiva'', 0.20),
      (''balance_tipo_saber'', 0.15),
      (''diversidad_metodologica'', 0.15),
      (''cobertura_competencias'', 0.15),
      (''calidad_redaccion'', 0.10)]"

text \<open>
  The entries of the list \<open>errors\<close> of \<open>validate_config\<close>; the \<open>ValueError\<close> it raises carries
  the list.
\<close>

datatype config_error = PesosNoSumanUno real | DirectorioNoEncontrado string

text \<open>
  \<open>validate_config\<close>. The module globals it reads are arguments: the weights, and the
  required directories, each with the answer of \<open>dir_path.exists()\<close>. \<open>Inl\<close> is the raised
  \<open>ValueError\<close>.
\<close>

definition validate_config ::
  "(string \<times> real) list \<Rightarrow> (string \<times> bool) list \<Rightarrow> config_error list + bool" where
  "validate_config quality_weights required_dirs =
     (let total_weight = sum_list (map snd quality_weights);
          errors = (if \<bar>total_weight - 1.0\<bar> > 0.01
                    then [PesosNoSumanUno total_weight] else []);
          errors = errors @
                   map (\<lambda>(dir_path, found). DirectorioNoEncontrado dir_path)
                       (filter (\<lambda>(dir_path, found). \<not> found) required_dirs)
      in if errors \<noteq> [] then Inl errors else Inr True)"

text \<open>
  The end of the module body, run when config.py is imported:
  \<^verbatim>\<open>try: validate_config()  except ValueError as e: print(f"ADVERTENCIA: {e}")\<close>.
  \<open>Inl\<close> would be the import failing with the error; \<open>Inr\<close> is the loaded module, with
  the errors of the warning it printed, if any.
\<close>

record modulo_config =
  advertencia :: "config_error list option"

definition import_config ::
  "(string \<times> real) list \<Rightarrow> (string \<times> bool) list \<Rightarrow> config_error list + modulo_config" where
  "import_config quality_weights required_dirs =
     (case validate_config quality_weights required_dirs of
        Inl errors \<Rightarrow> Inr \<lparr>advertencia = Some errors\<rparr>
      | Inr ok \<Rightarrow> Inr \<lparr>advertencia = None\<rparr>)"

section \<open>Composite quality score (src/src/analyzer.py)\<close>

subsection \<open>Binary floating point\<close>

text \<open>
  A Python float and a \<open>numpy.float64\<close> are IEEE 754 doubles: a real number with a
  significand of 53 binary digits and an exponent from -1022 to 1023 (smaller numbers are
  spaced \<open>2 ^ -1074\<close> apart), an infinity or NaN. Every operation returns the double
  nearest to the exact result, a tie going to the even significand, and an infinity when
  that double would reach \<open>2 ^ 1024\<close>. Signed zeros are not told apart.
\<close>

datatype float64 = Float64 real | Infinity | NegInfinity | NotANumber

text \<open>The nearest integer, a tie going to the even one.\<close>

definition round_he :: "real \<Rightarrow> int" where
  "round_he y =
     (let f = \<lfloor>y\<rfloor>; d = y - of_int f
      in if d < 1 / 2 then f else if d > 1 / 2 then f + 1
         else if even f then f else f + 1)"

text \<open>
  The spacing of the doubles at \<open>x\<close>: \<open>2 ^ (e - 52)\<close> for \<open>2 ^ e \<le> \<bar>x\<bar> < 2 ^ (e + 1)\<close>, with
  \<open>e\<close> not below -1022. \<open>bitlen n\<close> is the number of binary digits of \<open>n\<close>.
\<close>

definition ulp64 :: "real \<Rightarrow> real" where
  "ulp64 x = 2 powi (max (bitlen \<lfloor>\<bar>x\<bar> * 2 ^ 1074\<rfloor> - 1075) (- 1022) - 52)"

text \<open>The double that an exact result is rounded to.\<close>

definition fl64 :: "real \<Rightarrow> float64" where
  "fl64 x =
     (let r = of_int (round_he (x / ulp64 x)) * ulp64 x
      in if \<bar>r\<bar> \<ge> 2 ^ 1024 then (if x > 0 then Infinity else NegInfinity) else Float64 r)"

text \<open>Sum, difference, product and \<open><\<close> of doubles.\<close>

fun fadd :: "float64 \<Rightarrow> float64 \<Rightarrow> float64" where
  "fadd (Float64 a) (Float64 b) = fl64 (a + b)"
| "fadd NotANumber y = NotANumber"
| "fadd x NotANumber = NotANumber"
| "fadd Infinity NegInfinity = NotANumber"
| "fadd NegInfinity Infinity = NotANumber"
| "fadd Infinity y = Infinity"
| "fadd NegInfinity y = NegInfinity"
| "fadd (Float64 a) y = y"

fun fneg :: "float64 \<Rightarrow> float64" where
  "fneg (Float64 a) = Float64 (- a)"
| "fneg Infinity = NegInfinity"
| "fneg NegInfinity = Infinity"
| "fneg NotANumber = NotANumber"

definition fsub :: "float64 \<Rightarrow> float64 \<Rightarrow> float64" where
  "fsub x y = fadd x (fneg y)"

fun fsgn :: "float64 \<Rightarrow> int" where
  "fsgn (Float64 a) = (if a > 0 then 1 else if a < 0 then - 1 else 0)"
| "fsgn Infinity = 1"
| "fsgn NegInfinity = - 1"
| "fsgn NotANumber = 0"

fun fmul :: "float64 \<Rightarrow> float64 \<Rightarrow> float64" where
  "fmul (Float64 a) (Float64 b) = fl64 (a * b)"
| "fmul NotANumber y = NotANumber"
| "fmul x NotANumber = NotANumber"
| "fmul x y =
     (if fsgn x * fsgn y > 0 then Infinity
      else if fsgn x * fsgn y < 0 then NegInfinity else NotANumber)"

fun flt :: "float64 \<Rightarrow> float64 \<Rightarrow> bool" where
  "flt (Float64 a) (Float64 b) = (a < b)"
| "flt NotANumber y = False"
| "flt x NotANumber = False"
| "flt NegInfinity NegInfinity = False"
| "flt NegInfinity y = True"
| "flt x Infinity = (x \<noteq> Infinity)"
| "flt x y = False"

text \<open>
  \<open>min(a, b)\<close> and \<open>max(a, b)\<close> of Python: the first argument, unless the second is smaller
  (larger).
\<close>

definition py_min :: "float64 \<Rightarrow> float64 \<Rightarrow> float64" where
  "py_min a b = (if flt b a then b else a)"

definition py_max :: "float64 \<Rightarrow> float64 \<Rightarrow> float64" where
  "py_max a b = (if flt a b then b else a)"

text \<open>
  \<open>round(x, 1)\<close> calls the \<open>__round__\<close> of the type of \<open>x\<close>. For a Python float it takes the
  multiple of 0.1 nearest to the exact value of \<open>x\<close> (a tie going to the even digit) and
  returns the double nearest to it. For a \<open>numpy.float64\<close> it computes, as \<open>numpy.round\<close>
  does, \<open>rint(x * 10) / 10\<close> in double arithmetic. An infinity and NaN are returned as they
  are.
\<close>

datatype tipo_float = PythonFloat | NumpyFloat64

fun py_round1 :: "tipo_float \<Rightarrow> float64 \<Rightarrow> float64" where
  "py_round1 PythonFloat (Float64 x) = fl64 (of_int (round_he (x * 10)) / 10)"
| "py_round1 NumpyFloat64 (Float64 x) =
     (case fl64 (x * 10) of
        Float64 t \<Rightarrow> fl64 (of_int (round_he t) / 10)
      | v \<Rightarrow> v)"
| "py_round1 tipo v = v"

subsection \<open>The score\<close>

text \<open>
  The values that \<open>calcular_score_calidad\<close> reads from the results of the five indicator
  methods: four doubles (each is finite: a percentage or a standard deviation of
  percentages, rounded to one decimal) and a count.
\<close>

record indicadores =
  completitud_total :: real
  indice_complejidad :: real
  desviacion_estandar :: real
  porcentaje_cobertura :: real
  num_estrategias_unicas :: nat

text \<open>
  \<open>weights[key]\<close>: a missing key raises \<open>KeyError\<close>; the value is the double that the decimal
  literal of config.py denotes.
\<close>

definition peso :: "(string \<times> real) list \<Rightarrow> string \<Rightarrow> py_error + float64" where
  "peso weights k = (case map_of weights k of Some w \<Rightarrow> Inr (fl64 w) | None \<Rightarrow> Inl (KeyError k))"

text \<open>
  \<open>calcular_score_calidad\<close>, after the five indicator methods have returned. The module
  global \<open>QUALITY_WEIGHTS\<close> is an argument, and so is the type of \<open>score_total\<close>: it is a
  \<open>numpy.float64\<close> when an indicator value that enters the sum is one (the indicator
  methods compute with pandas and NumPy when their tables are not empty), a Python float
  otherwise; the arithmetic is the same for both, the type decides the rounding only. The
  keys are looked up in the order of the sum, which is added from left to right. The
  integers 0, 5 and 100 and the capped count \<open>min(100, n * 8)\<close> are exact as doubles.
\<close>

definition calcular_score_calidad ::
  "tipo_float \<Rightarrow> (string \<times> real) list \<Rightarrow> indicadores \<Rightarrow> py_error + float64" where
  "calcular_score_calidad tipo weights ind =
     (let score_completitud = Float64 (completitud_total ind);
          score_complejidad = Float64 (indice_complejidad ind);
          score_balance = fsub (Float64 100) (fmul (Float64 (desviacion_estandar ind)) (Float64 5));
          score_balance = py_max (Float64 0) (py_min (Float64 100) score_balance);
          score_cobertura = Float64 (porcentaje_cobertura ind);
          score_diversidad = Float64 (real (min 100 (num_estrategias_unicas ind * 8)));
          score_redaccion = Float64 80
      in case peso weights ''completitud'' of Inl e \<Rightarrow> Inl e | Inr w1 \<Rightarrow>
         case peso weights ''complejidad_cognitiva'' of Inl e \<Rightarrow> Inl e | Inr w2 \<Rightarrow>
         case peso weights ''balance_tipo_saber'' of Inl e \<Rightarrow> Inl e | Inr w3 \<Rightarrow>
         case peso weights ''diversidad_metodologica'' of Inl e \<Rightarrow> Inl e | Inr w4 \<Rightarrow>
         case peso weights ''cobertura_competencias'' of Inl e \<Rightarrow> Inl e | Inr w5 \<Rightarrow>
         case peso weights ''calidad_redaccion'' of Inl e \<Rightarrow> Inl e | Inr w6 \<Rightarrow>
           Inr (py_round1 tipo
                  (fadd (fadd (fadd (fadd (fadd (fmul score_completitud w1)
                                                (fmul score_complejidad w2))
                                          (fmul score_balance w3))
                                    (fmul score_diversidad w4))
                              (fmul score_cobertura w5))
                        (fmul score_redaccion w6))))"

section \<open>Subject similarity (src/analisis_tematico_avanzado.py)\<close>

text \<open>
  Step 3.3 of \<open>analisis_mineria_texto\<close>. The records are grouped by subject; the input here
  is the grouped table, one entry per subject: its name and the row that \<open>TfidfVectorizer\<close>
  (scikit-learn, outside the repository) gives its text. Floats are modelled as reals.
\<close>

definition dot :: "real list \<Rightarrow> real list \<Rightarrow> real" where
  "dot x y = sum_list (map2 (\<lambda>a b. a * b) x y)"

text \<open>
  \<open>cosine_similarity\<close> of scikit-learn: every row is divided by its Euclidean norm (a row
  of norm 0 is left as it is), then all pairwise dot products are taken.
\<close>

definition l2_normalize :: "real list \<Rightarrow> real list" where
  "l2_normalize x = (let norm = sqrt (dot x x) in map (\<lambda>v. v / (if norm = 0 then 1 else norm)) x)"

definition cosine_similarity :: "real list list \<Rightarrow> real list list" where
  "cosine_similarity X = (let Xn = map l2_normalize X in map (\<lambda>x. map (\<lambda>y. dot x y) Xn) Xn)"

text \<open>\<open>np.fill_diagonal(M, v)\<close> on a square matrix.\<close>

definition fill_diagonal :: "real list list \<Rightarrow> real \<Rightarrow> real list list" where
  "fill_diagonal M v = map (\<lambda>i. (M ! i)[i := v]) [0..<length M]"

text \<open>\<open>np.argmax\<close> of a flat array that is not empty: the first index of the maximum.\<close>

definition np_argmax :: "real list \<Rightarrow> nat" where
  "np_argmax xs = length (takeWhile (\<lambda>x. x \<noteq> Max (set xs)) xs)"

record par_similar =
  asignatura1 :: string
  asignatura2 :: string
  similitud :: real

text \<open>
  The result of the step: \<open>None\<close> when the \<open>if len(df_por_asignatura) > 2\<close> is not taken and
  nothing is stored, otherwise the entry \<open>'par_mas_similar'\<close>. \<open>argmax()\<close> works on the
  flattened matrix and \<open>np.unravel_index\<close> turns the flat index into row and column.
\<close>

definition similitud_asignaturas :: "(string \<times> real list) list \<Rightarrow> par_similar option" where
  "similitud_asignaturas df_por_asignatura =
     (if length df_por_asignatura > 2 then
        (let tfidf_asig = map snd df_por_asignatura;
             sim = fill_diagonal (cosine_similarity tfidf_asig) 0;
             n = length sim;
             k = np_argmax (concat sim);
             i = k div n;
             j = k mod n
         in Some \<lparr>asignatura1 = fst (df_por_asignatura ! i),
                  asignatura2 = fst (df_por_asignatura ! j),
                  similitud = sim ! i ! j\<rparr>)
      else None)"

text \<open>The entries of a square matrix outside its diagonal.\<close>

definition off_diagonal :: "real list list \<Rightarrow> real list" where
  "off_diagonal M = [M ! i ! j. i \<leftarrow> [0..<length M], j \<leftarrow> [0..<length M], i \<noteq> j]"

section \<open>Thematic diversity index (src/analisis_tematico_avanzado.py, src/dashboard_tematico.py)\<close>

text \<open>
  A NumPy float: a real number, an infinity or NaN. Finite arithmetic is exact here; what
  is modelled of IEEE arithmetic is what decides the degenerate cases: division by zero
  and by an infinity, and the logarithm of zero. Signed zeros are not told apart.
\<close>

datatype npfloat = Finite real | PosInf | NegInf | NaN

text \<open>\<open>np.log2(n)\<close> for a count \<open>n\<close>.\<close>

definition np_log2 :: "nat \<Rightarrow> npfloat" where
  "np_log2 n = (if n = 0 then NegInf else Finite (log 2 (real n)))"

text \<open>The quotient of two NumPy floats: no exception, \<open>0/0\<close> is NaN.\<close>

fun np_div :: "npfloat \<Rightarrow> npfloat \<Rightarrow> npfloat" where
  "np_div NaN y = NaN"
| "np_div x NaN = NaN"
| "np_div (Finite a) (Finite b) =
     (if b \<noteq> 0 then Finite (a / b)
      else if a = 0 then NaN else if a > 0 then PosInf else NegInf)"
| "np_div (Finite a) PosInf = Finite 0"
| "np_div (Finite a) NegInf = Finite 0"
| "np_div PosInf (Finite b) = (if b \<ge> 0 then PosInf else NegInf)"
| "np_div NegInf (Finite b) = (if b \<ge> 0 then NegInf else PosInf)"
| "np_div PosInf y = NaN"
| "np_div NegInf y = NaN"

text \<open>The product of a NumPy float with a positive finite factor.\<close>

fun np_scale :: "npfloat \<Rightarrow> real \<Rightarrow> npfloat" where
  "np_scale (Finite a) c = Finite (a * c)"
| "np_scale x c = x"

text \<open>
  \<open>Counter(nucleos_list)\<close>: the distinct tags in the order of their first occurrence, each
  with the number of its occurrences.
\<close>

fun counter_add :: "(string \<times> nat) list \<Rightarrow> string \<Rightarrow> (string \<times> nat) list" where
  "counter_add [] x = [(x, 1)]"
| "counter_add ((k, n) # c) x = (if k = x then (k, n + 1) # c else (k, n) # counter_add c x)"

definition Counter :: "string list \<Rightarrow> (string \<times> nat) list" where
  "Counter xs = foldl counter_add [] xs"

text \<open>
  \<open>scipy.stats.entropy(pk, base=2)\<close> (SciPy, outside the repository) on probabilities that
  sum to 1: the sum of \<open>-p * ln p\<close>, with 0 for \<open>p = 0\<close>, divided by \<open>ln 2\<close>. On an
  empty array it is taken as the empty sum.
\<close>

definition entr :: "real \<Rightarrow> real" where
  "entr p = (if p = 0 then 0 else - p * ln p)"

definition entropy :: "real list \<Rightarrow> real" where
  "entropy pk = sum_list (map entr pk) / ln 2"

text \<open>
  Step 1.3 of \<open>analisis_cobertura_tematica\<close> (analisis_tematico_avanzado.py), from the list
  of the tags found: the index is computed whatever the number of distinct tags is.
\<close>

definition indice_diversidad :: "string list \<Rightarrow> npfloat" where
  "indice_diversidad nucleos_list =
     (let nucleos_counter = Counter nucleos_list;
          frecuencias = map snd nucleos_counter;
          probabilidades = map (\<lambda>f. real f / real (sum_list frecuencias)) frecuencias;
          shannon_entropy = entropy probabilidades;
          max_entropy = np_log2 (length nucleos_counter)
      in np_scale (np_div (Finite shannon_entropy) max_entropy) 100)"

text \<open>
  The same index in \<open>analizar_cobertura\<close> (dashboard_tematico.py), behind the guard
  \<open>if len(nucleos_counter) > 1\<close>.
\<close>

definition diversidad :: "string list \<Rightarrow> npfloat" where
  "diversidad nucleos_list =
     (let nucleos_counter = Counter nucleos_list
      in if length nucleos_counter > 1 then
           (let frecuencias = map snd nucleos_counter;
                probabilidades = map (\<lambda>f. real f / real (sum_list frecuencias)) frecuencias;
                shannon = entropy probabilidades;
                max_ent = np_log2 (length nucleos_counter)
            in np_scale (np_div (Finite shannon) max_ent) 100)
         else Finite 0)"

text \<open>
  For a share \<open>p\<close> among \<open>c\<close> tags: how far the entropy term of \<open>p\<close> stays below its bound.
  It is 0 exactly for the even share \<open>1 / c\<close>.
\<close>

definition gap :: "real \<Rightarrow> real \<Rightarrow> real" where
  "gap c p = (1 / c - p) - (entr p - p * ln c)"

section \<open>Evaluation of characters\<close>

lemma char_eq_char_of_iff: "c = char_of (n::nat) \<longleftrightarrow> take_bit 8 n = (of_char c :: nat)"
  using char_of_eq_iff [of n c] by auto

lemmas char_eval = char_of_eq_iff char_eq_char_of_iff

section \<open>Properties of the cognitive level resolution\<close>

lemma buscar_verbo_None:
  "buscar_verbo tax v = None \<longleftrightarrow>
     v \<notin> set (concat (map (\<lambda>(nivel_nombre, nivel, verbos). map py_lower verbos) tax))"
  by (induction tax v rule: buscar_verbo.induct) (auto simp: Let_def)

lemma py_in_iff: "py_in sub s \<longleftrightarrow> (\<exists>pre post. s = pre @ sub @ post)"
proof (induction s)
  case Nil
  then show ?case by auto
next
  case (Cons c cs)
  show ?case
  proof
    assume "py_in sub (c # cs)"
    then consider "prefix sub (c # cs)" | "py_in sub cs" by auto
    then show "\<exists>pre post. c # cs = pre @ sub @ post"
    proof cases
      case 1
      then obtain post where "c # cs = sub @ post" by (auto simp: prefix_def)
      then have "c # cs = [] @ sub @ post" by simp
      then show ?thesis by blast
    next
      case 2
      with Cons obtain pre post where "cs = pre @ sub @ post" by blast
      then have "c # cs = (c # pre) @ sub @ post" by simp
      then show ?thesis by blast
    qed
  next
    assume "\<exists>pre post. c # cs = pre @ sub @ post"
    then obtain pre post where eq: "c # cs = pre @ sub @ post" by blast
    show "py_in sub (c # cs)"
    proof (cases pre)
      case Nil
      with eq have "prefix sub (c # cs)" by (simp add: prefix_def)
      then show ?thesis by simp
    next
      case (Cons p pre')
      with eq have "cs = pre' @ sub @ post" by simp
      with Cons.IH have "py_in sub cs" by blast
      then show ?thesis by simp
    qed
  qed
qed

lemma py_in_analisis: "py_in ''analisis'' s \<Longrightarrow> py_in ''analis'' s"
proof -
  assume "py_in ''analisis'' s"
  then obtain pre post where "s = pre @ ''analisis'' @ post"
    unfolding py_in_iff by blast
  then have "s = pre @ ''analis'' @ (''is'' @ post)" by simp
  then show ?thesis unfolding py_in_iff by blast
qed

lemma nivel_verbo_ausente: "pd_isna verbo \<Longrightarrow> get_nivel_taxonomico verbo nivel_dominio = 1"
  by (simp add: get_nivel_taxonomico_def)

lemma nivel_no_reconocido:
  assumes "\<not> pd_isna verbo"
    and "py_strip (py_lower (py_str verbo)) \<notin> set verbos_taxonomia"
  shows "get_nivel_taxonomico verbo nivel_dominio =
     (case (if \<not> pd_isna nivel_dominio
            then inferir_de_dominio (py_lower (py_str nivel_dominio)) else None) of
        Some nivel \<Rightarrow> nivel | None \<Rightarrow> 2)"
proof -
  from assms(2) have "buscar_verbo TAXONOMIA_BLOOM (py_strip (py_lower (py_str verbo))) = None"
    by (simp add: buscar_verbo_None verbos_taxonomia_def)
  with assms(1) show ?thesis
    by (simp add: get_nivel_taxonomico_def Let_def)
qed

lemma inferir_sin_senal: "sin_senal d \<Longrightarrow> inferir_de_dominio d = None \<or> inferir_de_dominio d = Some 2"
  using py_in_analisis [of d] by (auto simp: sin_senal_def inferir_de_dominio_def)

lemma inferir_crear:
  assumes "py_in ''crea'' d \<or> py_in (''dise'' @ [n_tilde] @ ''a'') d"
    and "\<not> py_in ''analis'' d" and "\<not> py_in ''evalua'' d" and "\<not> py_in ''critica'' d"
  shows "inferir_de_dominio d = Some 6"
  using assms py_in_analisis [of d] by (auto simp: inferir_de_dominio_def)

lemma inferir_rango: "inferir_de_dominio d = Some n \<Longrightarrow> 2 \<le> n \<and> n \<le> 6"
  by (auto simp: inferir_de_dominio_def split: if_splits)

lemmas nivel_eval =
  get_nivel_taxonomico_def TAXONOMIA_BLOOM_def verbos_taxonomia_def py_lower_def
  py_lower_char_def py_strip_def py_isspace_def inferir_de_dominio_def sin_senal_def char_eval

text \<open>
  C8. The verb "evaluar" resolves to level 5 whatever the declared domain level is (also
  when it is missing). A verb that is present but in no verb list of the taxonomy, with a
  declared domain level whose lower-cased text contains "crea" or "disena" (spelt with
  n-tilde) and none of the higher-priority substrings "analis", "evalua", "critica",
  resolves to level 6. A
  verb that is present but not in the taxonomy, with a declared domain level that is
  missing or contains none of the scanned substrings, resolves to the default level 2.
\<close>

theorem C8_nivel_taxonomico:
  "get_nivel_taxonomico (PyStr ''evaluar'') nivel_dominio = 5 \<and>
   (py_strip (py_lower verbo) \<notin> set verbos_taxonomia \<longrightarrow>
    (py_in ''crea'' (py_lower dominio) \<or> py_in (''dise'' @ [n_tilde] @ ''a'') (py_lower dominio)) \<longrightarrow>
    \<not> py_in ''analis'' (py_lower dominio) \<longrightarrow>
    \<not> py_in ''evalua'' (py_lower dominio) \<longrightarrow>
    \<not> py_in ''critica'' (py_lower dominio) \<longrightarrow>
    get_nivel_taxonomico (PyStr verbo) (PyStr dominio) = 6) \<and>
   (py_strip (py_lower verbo) \<notin> set verbos_taxonomia \<longrightarrow>
    (pd_isna nivel_dominio \<or> sin_senal (py_lower (py_str nivel_dominio))) \<longrightarrow>
    get_nivel_taxonomico (PyStr verbo) nivel_dominio = 2)"
proof (intro conjI impI)
  show "get_nivel_taxonomico (PyStr ''evaluar'') nivel_dominio = 5"
    by (simp add: nivel_eval)
next
  assume v: "py_strip (py_lower verbo) \<notin> set verbos_taxonomia"
    and s: "py_in ''crea'' (py_lower dominio) \<or> py_in (''dise'' @ [n_tilde] @ ''a'') (py_lower dominio)"
    and h: "\<not> py_in ''analis'' (py_lower dominio)" "\<not> py_in ''evalua'' (py_lower dominio)"
      "\<not> py_in ''critica'' (py_lower dominio)"
  have "inferir_de_dominio (py_lower dominio) = Some 6"
    using s h by (rule inferir_crear)
  then show "get_nivel_taxonomico (PyStr verbo) (PyStr dominio) = 6"
    using v by (simp add: nivel_no_reconocido)
next
  assume v: "py_strip (py_lower verbo) \<notin> set verbos_taxonomia"
    and d: "pd_isna nivel_dominio \<or> sin_senal (py_lower (py_str nivel_dominio))"
  have eq: "get_nivel_taxonomico (PyStr verbo) nivel_dominio =
     (case (if \<not> pd_isna nivel_dominio
            then inferir_de_dominio (py_lower (py_str nivel_dominio)) else None) of
        Some nivel \<Rightarrow> nivel | None \<Rightarrow> 2)"
    using v by (simp add: nivel_no_reconocido)
  show "get_nivel_taxonomico (PyStr verbo) nivel_dominio = 2"
  proof (cases "pd_isna nivel_dominio")
    case True
    then show ?thesis using eq by simp
  next
    case False
    with d have "sin_senal (py_lower (py_str nivel_dominio))" by simp
    from inferir_sin_senal [OF this] False show ?thesis using eq by auto
  qed
qed

theorem C8_nivel_taxonomico_witness:
  "get_nivel_taxonomico (PyStr ''evaluar'') (PyStr ''Nivel alto'') = 5 \<and>
   py_strip (py_lower ''Innovar'') \<notin> set verbos_taxonomia \<and>
   py_in (''dise'' @ [n_tilde] @ ''a'') (py_lower (''Dise'' @ [CHR 0xD1] @ ''ar soluciones'')) \<and>
   get_nivel_taxonomico (PyStr ''Innovar'') (PyStr (''Dise'' @ [CHR 0xD1] @ ''ar soluciones'')) = 6 \<and>
   sin_senal (py_lower (py_str (PyStr ''Nivel alto''))) \<and>
   get_nivel_taxonomico (PyStr ''Innovar'') (PyStr ''Nivel alto'') = 2 \<and>
   get_nivel_taxonomico (PyStr ''Innovar'') PyNaN = 2"
proof -
  have v: "py_strip (py_lower ''Innovar'') \<notin> set verbos_taxonomia"
    by (simp add: nivel_eval)
  have s: "py_in (''dise'' @ [n_tilde] @ ''a'') (py_lower (''Dise'' @ [CHR 0xD1] @ ''ar soluciones''))"
    by (simp add: nivel_eval)
  have h: "\<not> py_in ''analis'' (py_lower (''Dise'' @ [CHR 0xD1] @ ''ar soluciones''))"
    "\<not> py_in ''evalua'' (py_lower (''Dise'' @ [CHR 0xD1] @ ''ar soluciones''))"
    "\<not> py_in ''critica'' (py_lower (''Dise'' @ [CHR 0xD1] @ ''ar soluciones''))"
    by (simp_all add: nivel_eval)
  have n: "sin_senal (py_lower (py_str (PyStr ''Nivel alto'')))"
    by (simp add: nivel_eval)
  show ?thesis
    using v s h n
      C8_nivel_taxonomico [of "PyStr ''Nivel alto''" "''Innovar''"
        "''Dise'' @ [CHR 0xD1] @ ''ar soluciones''"]
      C8_nivel_taxonomico [of PyNaN "''Innovar''"
        "''Dise'' @ [CHR 0xD1] @ ''ar soluciones''"]
    by simp
qed

text \<open>
  C10. A missing verb (None or NaN) resolves to level 1 whatever the declared domain level
  is: neither the domain-level fallback nor the default 2 applies. A verb that is present
  but not in the taxonomy never resolves to level 1: its level lies between 2 and 6.
\<close>

theorem C10_verbo_ausente:
  "(pd_isna verbo \<longrightarrow> get_nivel_taxonomico verbo nivel_dominio = 1) \<and>
   (\<not> pd_isna verbo \<longrightarrow> py_strip (py_lower (py_str verbo)) \<notin> set verbos_taxonomia \<longrightarrow>
      2 \<le> get_nivel_taxonomico verbo nivel_dominio \<and>
      get_nivel_taxonomico verbo nivel_dominio \<le> 6)"
proof (intro conjI impI)
  assume "pd_isna verbo"
  then show "get_nivel_taxonomico verbo nivel_dominio = 1" by (rule nivel_verbo_ausente)
next
  assume a: "\<not> pd_isna verbo" "py_strip (py_lower (py_str verbo)) \<notin> set verbos_taxonomia"
  show "2 \<le> get_nivel_taxonomico verbo nivel_dominio"
    using inferir_rango [of "py_lower (py_str nivel_dominio)"]
    by (auto simp: nivel_no_reconocido [OF a] split: option.splits)
next
  assume a: "\<not> pd_isna verbo" "py_strip (py_lower (py_str verbo)) \<notin> set verbos_taxonomia"
  show "get_nivel_taxonomico verbo nivel_dominio \<le> 6"
    using inferir_rango [of "py_lower (py_str nivel_dominio)"]
    by (auto simp: nivel_no_reconocido [OF a] split: option.splits)
qed

theorem C10_verbo_ausente_witness:
  "pd_isna PyNaN \<and> get_nivel_taxonomico PyNaN (PyStr ''Crear'') = 1 \<and>
   pd_isna PyNone \<and> get_nivel_taxonomico PyNone (PyStr ''Crear'') = 1 \<and>
   \<not> pd_isna (PyStr ''Innovar'') \<and>
   py_strip (py_lower (py_str (PyStr ''Innovar''))) \<notin> set verbos_taxonomia \<and>
   2 \<le> get_nivel_taxonomico (PyStr ''Innovar'') (PyStr ''Crear'') \<and>
   get_nivel_taxonomico (PyStr ''Innovar'') (PyStr ''Crear'') \<le> 6"
proof -
  have v: "py_strip (py_lower (py_str (PyStr ''Innovar''))) \<notin> set verbos_taxonomia"
    by (simp add: nivel_eval)
  show ?thesis
    using v C10_verbo_ausente [of PyNaN "PyStr ''Crear''"]
      C10_verbo_ausente [of PyNone "PyStr ''Crear''"]
      C10_verbo_ausente [of "PyStr ''Innovar''" "PyStr ''Crear''"]
    by simp
qed

section \<open>Properties of the text normalizer\<close>

lemma replace_char_simps:
  "replace_char c = (if c = a_acute then CHR ''a'' else if c = e_acute then CHR ''e''
     else if c = i_acute then CHR ''i'' else if c = o_acute then CHR ''o''
     else if c = u_acute then CHR ''u'' else if c = n_tilde then CHR ''n''
     else if c = u_diaeresis then CHR ''u'' else c)"
  by (simp add: replace_char_def replacements_def)

lemma foldl_replacements:
  "foldl (\<lambda>t (old, new). py_replace old new t) s replacements = map replace_char s"
  by (simp add: replacements_def py_replace_def replace_char_simps)

lemma normalize_text_map: "normalize_text (PyStr s) = map normalize_char s"
  by (simp add: normalize_text_def foldl_replacements py_lower_def normalize_char_def)

lemma normalize_text_missing: "pd_isna text \<Longrightarrow> normalize_text text = []"
  by (simp add: normalize_text_def)

lemma of_char_lt_256: "(of_char c :: nat) < 256"
  by (metis of_char_mod_256 mod_less_divisor zero_less_numeral)

lemma of_char_py_lower_char:
  "(of_char (py_lower_char c) :: nat) =
     (let n = (of_char c :: nat) in
      if (65 \<le> n \<and> n \<le> 90) \<or> (192 \<le> n \<and> n \<le> 222 \<and> n \<noteq> 215) then n + 32 else n)"
  using of_char_lt_256 [of c] by (auto simp: py_lower_char_def Let_def)

lemma is_word_py_lower_char: "is_word_char (py_lower_char c) = is_word_char c"
  unfolding is_word_char_def of_char_py_lower_char Let_def
  using of_char_lt_256 [of c] by auto

lemma is_word_replace_char: "is_word_char (replace_char c) = is_word_char c"
  by (simp add: replace_char_simps is_word_char_def)

lemma is_word_normalize_char: "is_word_char (normalize_char c) = is_word_char c"
  by (simp add: normalize_char_def is_word_replace_char is_word_py_lower_char)

lemma replace_char_not_accent: "replace_char c \<notin> fst ` set replacements"
  by (simp add: replace_char_simps replacements_def)

lemma py_lower_replace_char: "py_lower_char c = c \<Longrightarrow> py_lower_char (replace_char c) = replace_char c"
  by (simp add: replace_char_simps py_lower_char_def)

lemma py_lower_char_idem: "py_lower_char (py_lower_char c) = py_lower_char c"
proof -
  have "(of_char (py_lower_char (py_lower_char c)) :: nat) = of_char (py_lower_char c)"
    unfolding of_char_py_lower_char [of "py_lower_char c"] 
    unfolding of_char_py_lower_char [of c] Let_def
    using of_char_lt_256 [of c] by auto
  then show ?thesis by (metis char_of_char)
qed

lemma py_isspace_normalize_char: "py_isspace c \<Longrightarrow> normalize_char c = c"
proof -
  assume s: "py_isspace c"
  then have "py_lower_char c = c" by (auto simp: py_isspace_def py_lower_char_def Let_def)
  moreover have "replace_char c = c" using s
    by (auto simp: replace_char_simps py_isspace_def)
  ultimately show ?thesis by (simp add: normalize_char_def)
qed

lemma normalize_char_fixed: "py_lower_char (normalize_char c) = normalize_char c"
  by (simp add: normalize_char_def py_lower_replace_char py_lower_char_idem)

lemma replace_char_idem: "replace_char (replace_char c) = replace_char c"
  by (simp add: replace_char_simps)

lemma normalize_char_idem: "normalize_char (normalize_char c) = normalize_char c"
  using normalize_char_fixed [of c] by (simp add: normalize_char_def replace_char_idem)

lemma normalize_text_idem:
  "normalize_text (PyStr (normalize_text text)) = normalize_text text"
proof (cases "text")
  case (PyStr s)
  then show ?thesis by (simp add: normalize_text_map normalize_char_idem)
qed (simp_all add: normalize_text_def py_lower_def replacements_def py_replace_def)

lemmas normalizer_eval =
  normalize_text_def py_lower_def py_lower_char_def py_replace_def replacements_def
  py_isspace_def char_eval

text \<open>
  C4, the claim as stated fails: the normalizer neither collapses runs of whitespace nor
  trims. The text " Plan  de  Gestion " (with an accented capital O) keeps its leading and
  trailing space and both double spaces.
\<close>

theorem C4_normalize_counterexample:
  "normalize_text (PyStr ('' Plan  de  Gesti'' @ [CHR 0xD3] @ ''n '')) = '' plan  de  gestion '' \<and>
   normalize_text (PyStr ('' Plan  de  Gesti'' @ [CHR 0xD3] @ ''n '')) \<noteq> ''plan de gestion''"
  by (simp add: normalizer_eval)

text \<open>
  C4, amended. The normalizer is a total function; a missing input (None, NaN) yields the
  empty string; on a string it works character by character: it lower-cases and then
  replaces the seven accented letters (a, e, i, o, u with acute, n with tilde, u with
  diaeresis) by their base letters. So the length is kept, no character of the result is
  one of the seven accented letters or changes under lower-casing, and every whitespace
  character stays where it is: whitespace is neither collapsed nor trimmed.
\<close>

theorem C4_normalize_text:
  "(pd_isna text \<longrightarrow> normalize_text text = []) \<and>
   normalize_text (PyStr s) = map (\<lambda>c. replace_char (py_lower_char c)) s \<and>
   length (normalize_text (PyStr s)) = length s \<and>
   (\<forall>c \<in> set (normalize_text (PyStr s)). c \<notin> fst ` set replacements \<and> py_lower_char c = c) \<and>
   (\<forall>i < length s. py_isspace (s ! i) \<longrightarrow> normalize_text (PyStr s) ! i = s ! i)"
proof (intro conjI impI ballI allI)
  assume "pd_isna text"
  then show "normalize_text text = []" by (rule normalize_text_missing)
next
  show "normalize_text (PyStr s) = map (\<lambda>c. replace_char (py_lower_char c)) s"
    using normalize_text_map [of s] by (simp add: normalize_char_def [abs_def])
next
  show "length (normalize_text (PyStr s)) = length s"
    by (simp add: normalize_text_map)
next
  fix c assume "c \<in> set (normalize_text (PyStr s))"
  then obtain d where c: "c = normalize_char d"
    by (auto simp: normalize_text_map)
  show "c \<notin> fst ` set replacements"
    unfolding c normalize_char_def by (rule replace_char_not_accent)
next
  fix c assume "c \<in> set (normalize_text (PyStr s))"
  then obtain d where c: "c = normalize_char d"
    by (auto simp: normalize_text_map)
  show "py_lower_char c = c"
    unfolding c by (rule normalize_char_fixed)
next
  fix i assume "i < length s" "py_isspace (s ! i)"
  then show "normalize_text (PyStr s) ! i = s ! i"
    by (simp add: normalize_text_map py_isspace_normalize_char)
qed

theorem C4_normalize_text_witness:
  "pd_isna PyNaN \<and> normalize_text PyNaN = [] \<and>
   normalize_text (PyStr ([CHR 0xC1] @ '' b'')) = ''a b'' \<and>
   CHR ''a'' \<in> set (normalize_text (PyStr ([CHR 0xC1] @ '' b''))) \<and>
   CHR ''a'' \<notin> fst ` set replacements \<and> py_lower_char CHR ''a'' = CHR ''a'' \<and>
   1 < length ([CHR 0xC1] @ '' b'') \<and> py_isspace (([CHR 0xC1] @ '' b'') ! 1) \<and>
   normalize_text (PyStr ([CHR 0xC1] @ '' b'')) ! 1 = ([CHR 0xC1] @ '' b'') ! 1"
proof -
  have a: "map (\<lambda>c. replace_char (py_lower_char c)) ([CHR 0xC1] @ '' b'') = ''a b''"
    by (simp add: replace_char_simps py_lower_char_def char_eval)
  have b: "py_isspace (([CHR 0xC1] @ '' b'') ! 1)"
    by (simp add: py_isspace_def)
  show ?thesis
    using a b C4_normalize_text [of PyNaN "[CHR 0xC1] @ '' b''"]
    by simp
qed

section \<open>Properties of the matcher\<close>

lemma findall_from_Nil: "findall_from kw None [] = []"
  by (simp add: findall_from.simps match_at_def word_boundary_def)

lemma re_findall_Nil: "re_findall kw [] = []"
  by (simp add: re_findall_def findall_from_Nil)

lemma findall_from_occurrence:
  "word_boundary (if pre = [] then prev else Some (last pre)) (kw @ post) \<Longrightarrow>
   findall_from kw prev (pre @ kw @ post) \<noteq> []"
proof (induction pre arbitrary: prev)
  case Nil
  then have "match_at kw prev (kw @ post) = Some (kw @ takeWhile is_word_char post)"
    by (simp add: match_at_def)
  then show ?case
    by (subst findall_from.simps) (simp split: list.splits)
next
  case (Cons c pre)
  have b: "word_boundary (if pre = [] then Some c else Some (last pre)) (kw @ post)"
    using Cons.prems by (simp split: if_splits)
  have ih: "findall_from kw (Some c) (pre @ kw @ post) \<noteq> []"
    using Cons.IH [OF b] .
  show ?case
    by (subst findall_from.simps) (simp add: ih split: option.splits)
qed

lemma word_start_boundary:
  assumes "pre = [] \<or> \<not> is_word_char (last pre)" and "kw \<noteq> []" and "is_word_char (hd kw)"
  shows "word_boundary (if pre = [] then None else Some (last pre)) (kw @ post)"
  using assms by (cases kw) (auto simp: word_boundary_def)

lemma re_findall_word_start:
  assumes "pre = [] \<or> \<not> is_word_char (last pre)" and "kw \<noteq> []" and "is_word_char (hd kw)"
  shows "re_findall (normalize_text (PyStr kw)) (normalize_text (PyStr (pre @ kw @ post))) \<noteq> []"
proof -
  let ?n = "map normalize_char"
  have 1: "?n pre = [] \<or> \<not> is_word_char (last (?n pre))"
    using assms(1) by (auto simp: last_map is_word_normalize_char)
  have 2: "?n kw \<noteq> []" using assms(2) by simp
  have 3: "is_word_char (hd (?n kw))"
    using assms(2,3) by (simp add: hd_map is_word_normalize_char)
  have "findall_from (?n kw) None (?n pre @ ?n kw @ ?n post) \<noteq> []"
    by (rule findall_from_occurrence) (rule word_start_boundary [OF 1 2 3])
  then show ?thesis
    by (simp add: re_findall_def normalize_text_map)
qed

lemma fst_foldl_buscar_keyword:
  "fst (foldl (buscar_keyword self text tn ec) estado kws) =
     fst estado @ concat (map (\<lambda>kw. re_findall (normalize_text (PyStr kw)) tn) kws)"
proof (induction kws arbitrary: estado)
  case Nil
  then show ?case by simp
next
  case (Cons kw kws)
  have "fst (buscar_keyword self text tn ec estado kw) =
      fst estado @ re_findall (normalize_text (PyStr kw)) tn"
    by (simp add: buscar_keyword_def Let_def)
  then show ?case by (simp add: Cons.IH)
qed

lemma detect_tematica_count:
  "num_coincidencias (detect_tematica self text tn ec keywords) = card (surface_forms keywords tn)"
  by (simp add: detect_tematica_def Let_def fst_foldl_buscar_keyword length_remdups_card_conv surface_forms_def)

lemma detect_tematica_presente:
  "presente (detect_tematica self text tn ec keywords) =
     (num_coincidencias (detect_tematica self text tn ec keywords) > 0)"
  by (simp add: detect_tematica_def Let_def)

lemma map_of_map_config:
  assumes "distinct (map fst cfg)" and "(t, kws) \<in> set cfg"
  shows "map_of (map (\<lambda>(tematica, keywords). (tematica, f keywords)) cfg) t = Some (f kws)"
proof -
  have "map_of cfg t = Some kws" using assms by simp
  moreover have "map_of (map (\<lambda>(tematica, keywords). (tematica, f keywords)) cfg) t
      = map_option f (map_of cfg t)"
    by (induction cfg) auto
  ultimately show ?thesis by simp
qed

lemma surface_forms_empty_text: "surface_forms keywords [] = {}"
  by (simp add: surface_forms_def re_findall_Nil)

lemma detect_in_text_lookup:
  assumes "distinct (map fst (tematicas_config self))"
    and "(tematica, keywords) \<in> set (tematicas_config self)"
  shows "\<exists>r. map_of (detect_in_text self text ec) tematica = Some r \<and>
     num_coincidencias r = card (surface_forms keywords (normalize_text text)) \<and>
     presente r = (num_coincidencias r > 0)"
proof (cases "pd_isna text \<or> py_falsy text")
  case True
  then have "normalize_text text = []"
    by (cases "text") (auto simp: normalize_text_def py_lower_def replacements_def py_replace_def)
  then show ?thesis using True
    by (simp add: detect_in_text_def map_of_map_config [OF assms] surface_forms_empty_text)
next
  case False
  then show ?thesis
    by (simp add: detect_in_text_def Let_def map_of_map_config [OF assms]
        detect_tematica_count detect_tematica_presente)
qed

lemma finite_surface_forms: "finite (surface_forms kws tn)"
  by (simp add: surface_forms_def)

lemma surface_forms_word_start:
  assumes "kw \<in> set kws" and "pre = [] \<or> \<not> is_word_char (last pre)"
    and "kw \<noteq> []" and "is_word_char (hd kw)"
  shows "1 \<le> card (surface_forms kws (normalize_text (PyStr (pre @ kw @ post))))"
proof -
  let ?tn = "normalize_text (PyStr (pre @ kw @ post))"
  from re_findall_word_start [OF assms(2-4)]
  obtain m where "m \<in> set (re_findall (normalize_text (PyStr kw)) ?tn)"
    by (cases "re_findall (normalize_text (PyStr kw)) ?tn") auto
  with assms(1) have "m \<in> surface_forms kws ?tn"
    by (auto simp: surface_forms_def)
  then have "surface_forms kws ?tn \<noteq> {}" by blast
  with finite_surface_forms [of kws ?tn] have "0 < card (surface_forms kws ?tn)"
    by (simp add: card_gt_0_iff)
  then show ?thesis by simp
qed

lemma detect_tematica_no_keywords:
  "detect_tematica self text tn ec [] =
     \<lparr>presente = False, num_coincidencias = 0, keywords_encontradas = [], contexto = []\<rparr>"
  by (simp add: detect_tematica_def)

text \<open>
  Occurrences that are not at the start of a word are not matched: a keyword inside a
  longer word, and a keyword that begins with a non-word character, before which the
  pattern finds no boundary when it follows a space.
\<close>

lemma re_findall_not_at_word_start:
  "re_findall ''ia'' ''historia'' = [] \<and> re_findall ''.net'' ''usar .net'' = []"
  by code_simp

lemmas detector_eval =
  init_detector_def detect_in_text_def detect_tematica_def buscar_keyword_def
  extract_context_def re_findall_def














text \<open>
  A match that starts inside an earlier one is not returned: in "a a ab" the pattern of the
  keyword "a a" matches "a a" at the start and "a ab" after "a ", and the search returns
  the first only.
\<close>

lemma re_findall_overlap:
  "re_findall ''a a'' ''a a ab'' = [''a a''] \<and>
   pattern_match ''a a'' [] ''a a'' '' ab'' \<and> pattern_match ''a a'' ''a '' ''a ab'' []"
  by code_simp












text \<open>
  C7, the claim as stated fails: the constructor accepts a dictionary with a theme whose
  keyword list is empty and keeps it as it is, and the matcher then runs on that theme and
  reports it absent.
\<close>

theorem C7_empty_keywords_counterexample:
  "tematicas_config (init_detector (Some [(''VACIA'', [])]) 100) = [(''VACIA'', [])] \<and>
   detect_in_text (init_detector (Some [(''VACIA'', [])]) 100) (PyStr ''desarrollo sostenible'') True =
     [(''VACIA'', \<lparr>presente = False, num_coincidencias = 0,
                   keywords_encontradas = [], contexto = []\<rparr>)]"
  by (simp add: init_detector_def detect_in_text_def detect_tematica_def)

text \<open>
  C7, amended. The constructor checks nothing: every non-empty dictionary is kept
  unchanged, also one with a theme whose keyword list is empty (only a missing or empty
  dictionary is replaced by the default). At match time a theme with an empty keyword list
  is reported, for every text, as absent with count 0, no matched form and no context.
\<close>

theorem C7_empty_keywords:
  "(cfg \<noteq> [] \<longrightarrow> tematicas_config (init_detector (Some cfg) window) = cfg) \<and>
   (distinct (map fst (tematicas_config self)) \<longrightarrow>
    (tematica, []) \<in> set (tematicas_config self) \<longrightarrow>
    map_of (detect_in_text self text ec) tematica =
      Some \<lparr>presente = False, num_coincidencias = 0, keywords_encontradas = [], contexto = []\<rparr>)"
proof (intro conjI impI)
  assume "cfg \<noteq> []"
  then show "tematicas_config (init_detector (Some cfg) window) = cfg"
    by (simp add: init_detector_def)
next
  assume a: "distinct (map fst (tematicas_config self))"
    "(tematica, []) \<in> set (tematicas_config self)"
  show "map_of (detect_in_text self text ec) tematica =
      Some \<lparr>presente = False, num_coincidencias = 0, keywords_encontradas = [], contexto = []\<rparr>"
    by (simp add: detect_in_text_def Let_def map_of_map_config [OF a] detect_tematica_no_keywords)
qed

theorem C7_empty_keywords_witness:
  "[(''IA'', [''ia'']), (''VACIA'', [])] \<noteq> [] \<and>
   tematicas_config (init_detector (Some [(''IA'', [''ia'']), (''VACIA'', [])]) 100) =
     [(''IA'', [''ia'']), (''VACIA'', [])] \<and>
   distinct (map fst (tematicas_config (init_detector (Some [(''IA'', [''ia'']), (''VACIA'', [])]) 100))) \<and>
   (''VACIA'', []) \<in> set (tematicas_config (init_detector (Some [(''IA'', [''ia'']), (''VACIA'', [])]) 100)) \<and>
   map_of (detect_in_text (init_detector (Some [(''IA'', [''ia'']), (''VACIA'', [])]) 100)
             (PyStr ''uso de ia'') True) ''VACIA'' =
     Some \<lparr>presente = False, num_coincidencias = 0, keywords_encontradas = [], contexto = []\<rparr>"
proof -
  have c: "tematicas_config (init_detector (Some [(''IA'', [''ia'']), (''VACIA'', [])]) 100) =
     [(''IA'', [''ia'']), (''VACIA'', [])]"
    by (simp add: init_detector_def)
  show ?thesis
    using C7_empty_keywords [of "[(''IA'', [''ia'']), (''VACIA'', [])]" 100
        "init_detector (Some [(''IA'', [''ia'']), (''VACIA'', [])]) 100" "''VACIA''"
        "PyStr ''uso de ia''" True]
    by (simp add: c)
qed

section \<open>Properties of the coverage matrix\<close>

lemma presente_sum_registros:
  assumes "distinct (map fst (tematicas_config self))"
    and "(tematica, kws) \<in> set (tematicas_config self)"
  shows "presente_sum (detect_in_dataframe self (map (\<lambda>v. [v]) df)) tematica =
     (\<Sum>v\<leftarrow>df. if 0 < coincidencias_registro self tematica v then 1 else 0)"
proof -
  have "(case map_of (map (\<lambda>(tematica, resultado).
             (tematica, presente resultado, num_coincidencias resultado))
             (detect_in_text self (PyStr (concat_texts [v])) False)) tematica of
           Some (p, n) \<Rightarrow> if p then 1 else 0 | None \<Rightarrow> (0::int)) =
        (if 0 < coincidencias_registro self tematica v then 1 else 0)" for v
  proof -
    from detect_in_text_lookup [OF assms, of "PyStr (concat_texts [v])" False]
    obtain r where r: "map_of (detect_in_text self (PyStr (concat_texts [v])) False) tematica = Some r"
      "presente r = (0 < num_coincidencias r)"
      by (elim exE conjE)
    show ?thesis
      by (simp add: map_of_map r coincidencias_registro_def)
  qed
  then show ?thesis
    by (simp add: presente_sum_def detect_in_dataframe_def Let_def comp_def)
qed

lemma map_of_map_key:
  "distinct (map fst cfg) \<Longrightarrow> (t, kws) \<in> set cfg \<Longrightarrow>
   map_of (map (\<lambda>(k, v). (k, F k v)) cfg) t = Some (F t kws)"
  by (induction cfg) (auto simp: rev_image_eqI)

lemma presente_sum_Nil: "presente_sum [] tematica = 0"
  by (simp add: presente_sum_def)

lemma celda_fila_programa:
  assumes "distinct (map fst (tematicas_config self))"
    and "(tematica, kws) \<in> set (tematicas_config self)"
  shows "celda (fila_programa self datos) tematica =
     (\<Sum>v\<leftarrow>registros datos. if 0 < coincidencias_registro self tematica v then 1 else 0)"
proof -
  let ?f = "\<lambda>df. (\<Sum>v\<leftarrow>df. if 0 < coincidencias_registro self tematica v then 1 else (0::int))"
  let ?g = "\<lambda>tematica df. (if df \<noteq> [] then presente_sum (detect_in_dataframe self (map (\<lambda>v. [v]) df)) tematica else 0)"
  have fr: "frecuencias (fila_programa self datos) =
      map (\<lambda>(tematica, keywords).
         (tematica, ?g tematica (competencias datos) + ?g tematica (resultados_aprendizaje datos)))
        (tematicas_config self)"
    by (auto simp: fila_programa_def analyze_programa_def Let_def split_def)
  have g: "?g tematica df = ?f df" for df
    using presente_sum_registros [OF assms, of df] by (cases "df = []") simp_all
  have "map_of (frecuencias (fila_programa self datos)) tematica =
      Some (?g tematica (competencias datos) + ?g tematica (resultados_aprendizaje datos))"
    unfolding fr by (rule map_of_map_key [OF assms])
  then show ?thesis
    by (simp add: celda_def g registros_def del: map_of_map)
qed

lemma sum_indicator_length:
  "(\<Sum>v\<leftarrow>xs. if 0 < f v then 1 else (0::int)) = int (length (filter (\<lambda>v. 0 < f v) xs))"
  by (induction xs) auto

lemma sum_indicator_le:
  "(\<Sum>v\<leftarrow>xs. if 0 < f v then 1 else (0::int)) \<le> int (\<Sum>v\<leftarrow>xs. f v)"
  by (induction xs) auto

lemma frecuencias_fila_programa:
  assumes "distinct (map fst (tematicas_config self))"
  shows "map snd (frecuencias (fila_programa self datos)) =
     map (\<lambda>(tematica, kws). celda (fila_programa self datos) tematica) (tematicas_config self)"
proof -
  let ?g = "\<lambda>tematica df. (if df \<noteq> [] then presente_sum (detect_in_dataframe self (map (\<lambda>v. [v]) df)) tematica else 0)"
  let ?h = "\<lambda>tematica (kws :: string list). ?g tematica (competencias datos) + ?g tematica (resultados_aprendizaje datos)"
  have fr: "frecuencias (fila_programa self datos) =
      map (\<lambda>(tematica, kws). (tematica, ?h tematica kws)) (tematicas_config self)"
    by (auto simp: fila_programa_def analyze_programa_def Let_def split_def)
  have "celda (fila_programa self datos) t = ?h t kws" if "(t, kws) \<in> set (tematicas_config self)" for t kws
    unfolding celda_def fr using map_of_map_key [OF assms that, of ?h] by simp
  then have "map (\<lambda>(tematica, kws). celda (fila_programa self datos) tematica) (tematicas_config self)
     = map (\<lambda>(tematica, kws). ?h tematica kws) (tematicas_config self)"
    by (intro map_cong) auto
  also have "\<dots> = map snd (frecuencias (fila_programa self datos))"
    unfolding fr by (simp add: comp_def split_def)
  finally show ?thesis by simp
qed

lemma Programa_fila_programa: "Programa (fila_programa self datos) = programa datos"
  by (simp add: fila_programa_def analyze_programa_def Let_def)


text \<open>
  C1, the claim as stated fails: a cell is not the sum of the match counts of the records.
  With the theme SOSTENIBILIDAD given the keywords "sostenible" and "ambiental", the single
  competency "Desarrollo sostenible y ambiental" has match count 2, and the cell of its
  program is 1.
\<close>

theorem C1_thematic_matrix_counterexample:
  "generate_thematic_matrix ejemplo_detector [ejemplo_programa] =
     Inr [\<lparr>Programa = ''Ing'', Competencias = 1, Resultados_Aprendizaje = 0,
            frecuencias = [(''SOSTENIBILIDAD'', 1)]\<rparr>,
          \<lparr>Programa = ''TOTAL'', Competencias = 1, Resultados_Aprendizaje = 0,
            frecuencias = [(''SOSTENIBILIDAD'', 1)]\<rparr>] \<and>
   (\<Sum>v\<leftarrow>registros ejemplo_programa.
      coincidencias_registro ejemplo_detector ''SOSTENIBILIDAD'' v) = 2"
  unfolding ejemplo_detector_def ejemplo_programa_def by code_simp

text \<open>
  C1, amended. The theme dictionary has unique theme names and there is at least one
  program (with none, building the matrix raises KeyError). Then the matrix is the list of
  the program rows, sorted by program name, followed by one row of totals. In the row of a
  program the cell of a theme is the number of the program's records (competencies and
  learning outcomes) in which the theme is present, that is, whose match count for the
  theme is positive; each record counts once, whatever its match count. So a cell is never
  negative and never exceeds the sum of the match counts of the program's records, and the
  theme sum of a row is the sum of these cells.
\<close>

theorem C1_thematic_matrix:
  assumes "distinct (map fst (tematicas_config self))" and "all_programas \<noteq> []"
  shows "\<exists>filas totales.
     generate_thematic_matrix self all_programas = Inr (filas @ [totales]) \<and>
     length filas = length all_programas \<and>
     set filas = fila_programa self ` set all_programas \<and>
     (\<forall>datos \<in> set all_programas.
        Programa (fila_programa self datos) = programa datos \<and>
        sum_list (map snd (frecuencias (fila_programa self datos))) =
          (\<Sum>(tematica, kws)\<leftarrow>tematicas_config self. celda (fila_programa self datos) tematica) \<and>
        (\<forall>tematica \<in> fst ` set (tematicas_config self).
           celda (fila_programa self datos) tematica =
             int (length (filter (\<lambda>v. 0 < coincidencias_registro self tematica v) (registros datos))) \<and>
           0 \<le> celda (fila_programa self datos) tematica \<and>
           celda (fila_programa self datos) tematica \<le>
             int (\<Sum>v\<leftarrow>registros datos. coincidencias_registro self tematica v)))"
proof -
  let ?filas = "sort_key Programa (map (fila_programa self) all_programas)"
  obtain totales where g: "generate_thematic_matrix self all_programas = Inr (?filas @ [totales])"
    using assms(2) by (simp add: generate_thematic_matrix_def Let_def)
  have cell: "celda (fila_programa self datos) tematica =
        int (length (filter (\<lambda>v. 0 < coincidencias_registro self tematica v) (registros datos))) \<and>
      0 \<le> celda (fila_programa self datos) tematica \<and>
      celda (fila_programa self datos) tematica \<le>
        int (\<Sum>v\<leftarrow>registros datos. coincidencias_registro self tematica v)"
    if "tematica \<in> fst ` set (tematicas_config self)" for datos tematica
  proof -
    from that obtain kws where "(tematica, kws) \<in> set (tematicas_config self)" by auto
    from celda_fila_programa [OF assms(1) this, of datos]
    show ?thesis
      using sum_indicator_length [of "coincidencias_registro self tematica" "registros datos"]
        sum_indicator_le [of "coincidencias_registro self tematica" "registros datos"]
      by simp
  qed
  have rows: "Programa (fila_programa self datos) = programa datos \<and>
        sum_list (map snd (frecuencias (fila_programa self datos))) =
          (\<Sum>(tematica, kws)\<leftarrow>tematicas_config self. celda (fila_programa self datos) tematica) \<and>
        (\<forall>tematica \<in> fst ` set (tematicas_config self).
           celda (fila_programa self datos) tematica =
             int (length (filter (\<lambda>v. 0 < coincidencias_registro self tematica v) (registros datos))) \<and>
           0 \<le> celda (fila_programa self datos) tematica \<and>
           celda (fila_programa self datos) tematica \<le>
             int (\<Sum>v\<leftarrow>registros datos. coincidencias_registro self tematica v))" for datos
  proof (intro conjI ballI)
    show "Programa (fila_programa self datos) = programa datos"
      by (rule Programa_fila_programa)
    show "sum_list (map snd (frecuencias (fila_programa self datos))) =
          (\<Sum>(tematica, kws)\<leftarrow>tematicas_config self. celda (fila_programa self datos) tematica)"
      by (simp only: frecuencias_fila_programa [OF assms(1)])
  next
    fix tematica assume t: "tematica \<in> fst ` set (tematicas_config self)"
    show "celda (fila_programa self datos) tematica =
        int (length (filter (\<lambda>v. 0 < coincidencias_registro self tematica v) (registros datos)))"
      using cell [OF t] by blast
    show "0 \<le> celda (fila_programa self datos) tematica"
      using cell [OF t] by blast
    show "celda (fila_programa self datos) tematica \<le>
        int (\<Sum>v\<leftarrow>registros datos. coincidencias_registro self tematica v)"
      using cell [OF t] by blast
  qed
  have "length ?filas = length all_programas" by simp
  moreover have "set ?filas = fila_programa self ` set all_programas" by simp
  ultimately show ?thesis
    using g rows by blast
qed


theorem C1_thematic_matrix_witness:
  "distinct (map fst (tematicas_config ejemplo_detector)) \<and> [ejemplo_programa] \<noteq> [] \<and>
   (\<exists>filas totales.
     generate_thematic_matrix ejemplo_detector [ejemplo_programa] = Inr (filas @ [totales]) \<and>
     length filas = length [ejemplo_programa] \<and>
     set filas = fila_programa ejemplo_detector ` set [ejemplo_programa] \<and>
     (\<forall>datos \<in> set [ejemplo_programa].
        Programa (fila_programa ejemplo_detector datos) = programa datos \<and>
        sum_list (map snd (frecuencias (fila_programa ejemplo_detector datos))) =
          (\<Sum>(tematica, kws)\<leftarrow>tematicas_config ejemplo_detector.
             celda (fila_programa ejemplo_detector datos) tematica) \<and>
        (\<forall>tematica \<in> fst ` set (tematicas_config ejemplo_detector).
           celda (fila_programa ejemplo_detector datos) tematica =
             int (length (filter (\<lambda>v. 0 < coincidencias_registro ejemplo_detector tematica v)
                            (registros datos))) \<and>
           0 \<le> celda (fila_programa ejemplo_detector datos) tematica \<and>
           celda (fila_programa ejemplo_detector datos) tematica \<le>
             int (\<Sum>v\<leftarrow>registros datos. coincidencias_registro ejemplo_detector tematica v)))) \<and>
   ejemplo_programa \<in> set [ejemplo_programa] \<and>
   ''SOSTENIBILIDAD'' \<in> fst ` set (tematicas_config ejemplo_detector)"
proof -
  have d: "distinct (map fst (tematicas_config ejemplo_detector))"
    by (simp add: ejemplo_detector_def init_detector_def)
  have n: "[ejemplo_programa] \<noteq> []" by simp
  have m: "ejemplo_programa \<in> set [ejemplo_programa]" by simp
  have t: "''SOSTENIBILIDAD'' \<in> fst ` set (tematicas_config ejemplo_detector)"
    by (simp add: ejemplo_detector_def init_detector_def)
  show ?thesis
    by (rule conjI [OF d conjI [OF n conjI [OF C1_thematic_matrix [OF d n] conjI [OF m t]]]])
qed

section \<open>Properties of the configuration validation and of the quality score\<close>

lemma dirs_filter_empty:
  "filter (\<lambda>(dir_path, found). \<not> found) dirs = [] \<longleftrightarrow> (\<forall>d \<in> set dirs. snd d)"
  by (auto simp: filter_empty_conv)

lemma validate_config_accepts:
  "validate_config w dirs = Inr True \<longleftrightarrow>
     \<bar>sum_list (map snd w) - 1\<bar> \<le> 0.01 \<and> (\<forall>d \<in> set dirs. snd d)"
proof (cases "\<bar>sum_list (map snd w) - 1\<bar> > 0.01")
  case True
  then show ?thesis by (simp add: validate_config_def Let_def)
next
  case False
  then have "\<bar>sum_list (map snd w) - 1\<bar> \<le> 0.01" by simp
  with False show ?thesis
    using dirs_filter_empty [of dirs]
    by (simp add: validate_config_def Let_def split_def)
qed

lemma validate_config_rejects:
  assumes "\<bar>sum_list (map snd w) - 1\<bar> > 0.01"
  shows "\<exists>errs. validate_config w dirs = Inl (PesosNoSumanUno (sum_list (map snd w)) # errs)"
  using assms by (simp add: validate_config_def Let_def)

lemma import_never_fails:
  "import_config w dirs = Inr \<lparr>advertencia = (case validate_config w dirs of Inl errors \<Rightarrow> Some errors | Inr ok \<Rightarrow> None)\<rparr>"
  by (simp add: import_config_def split: sum.splits)


text \<open>
  C6, the claim as stated fails in its second half: at load time the error of the
  validation is caught and printed as a warning, and the module loads. With the weights of
  config.py but 0.20 for the completeness (sum 0.95), importing the module does not fail.
\<close>

theorem C6_import_counterexample:
  "import_config
     [(''completitud'', 0.20), (''complejidad_cognitiva'', 0.20), (''balance_tipo_saber'', 0.15),
      (''diversidad_metodologica'', 0.15), (''cobertura_competencias'', 0.15),
      (''calidad_redaccion'', 0.10)]
     [(''data/raw'', True), (''data/output'', True), (''data/processed'', True)] =
   Inr \<lparr>advertencia = Some [PesosNoSumanUno 0.95]\<rparr>"
  by (simp add: import_config_def validate_config_def)

text \<open>
  C6, amended. \<open>validate_config\<close> raises an error naming the sum for a weight set that sums
  to 0.95 or to 1.05, and returns True for a sum anywhere in 0.995..1.005 (so for 1.00)
  when the required directories exist. At load time the module catches this error, prints
  it as a warning and loads all the same: importing never fails, and the run is not
  blocked.
\<close>

theorem C6_validate_config:
  "(sum_list (map snd w) = 0.95 \<or> sum_list (map snd w) = 1.05 \<longrightarrow>
      (\<exists>errs. validate_config w dirs = Inl (PesosNoSumanUno (sum_list (map snd w)) # errs))) \<and>
   (0.995 \<le> sum_list (map snd w) \<and> sum_list (map snd w) \<le> 1.005 \<and> (\<forall>d \<in> set dirs. snd d) \<longrightarrow>
      validate_config w dirs = Inr True) \<and>
   import_config w dirs =
     Inr \<lparr>advertencia =
            (case validate_config w dirs of Inl errors \<Rightarrow> Some errors | Inr ok \<Rightarrow> None)\<rparr>"
proof (intro conjI impI)
  assume "sum_list (map snd w) = 0.95 \<or> sum_list (map snd w) = 1.05"
  then have "\<bar>sum_list (map snd w) - 1\<bar> > 0.01" by auto
  then show "\<exists>errs. validate_config w dirs = Inl (PesosNoSumanUno (sum_list (map snd w)) # errs)"
    by (rule validate_config_rejects)
next
  assume a: "0.995 \<le> sum_list (map snd w) \<and> sum_list (map snd w) \<le> 1.005 \<and> (\<forall>d \<in> set dirs. snd d)"
  then have "0.995 \<le> sum_list (map snd w)" and "sum_list (map snd w) \<le> 1.005"
    by blast+
  then have "\<bar>sum_list (map snd w) - 1\<bar> \<le> 0.01" by (simp add: abs_if)
  with a show "validate_config w dirs = Inr True"
    by (simp add: validate_config_accepts)
next
  show "import_config w dirs =
     Inr \<lparr>advertencia =
            (case validate_config w dirs of Inl errors \<Rightarrow> Some errors | Inr ok \<Rightarrow> None)\<rparr>"
    by (simp add: import_config_def split: sum.splits)
qed

theorem C6_validate_config_witness:
  "sum_list (map snd [(''completitud'', 1.05 :: real)]) = 1.05 \<and>
   (\<exists>errs. validate_config [(''completitud'', 1.05)] [(''data/raw'', True)] =
      Inl (PesosNoSumanUno (sum_list (map snd [(''completitud'', 1.05 :: real)])) # errs)) \<and>
   0.995 \<le> sum_list (map snd QUALITY_WEIGHTS) \<and> sum_list (map snd QUALITY_WEIGHTS) \<le> 1.005 \<and>
   snd (''data/raw'', True) \<and>
   validate_config QUALITY_WEIGHTS [(''data/raw'', True)] = Inr True"
proof -
  have s: "sum_list (map snd QUALITY_WEIGHTS) = 1"
    by (simp add: QUALITY_WEIGHTS_def)
  show ?thesis
    using C6_validate_config [of "[(''completitud'', 1.05)]" "[(''data/raw'', True)]"]
      C6_validate_config [of QUALITY_WEIGHTS "[(''data/raw'', True)]"]
    by (simp add: s)
qed

text \<open>
  Rounding to a double: the result is within half a spacing of the exact value and does
  not leave a range bounded by a power of two.
\<close>

lemma round_he_error: "\<bar>of_int (round_he y) - y\<bar> \<le> 1 / 2"
  unfolding round_he_def Let_def by (auto simp: abs_if) linarith+

lemma round_he_of_int: "round_he (of_int n) = n"
  by (simp add: round_he_def)

lemma round_he_le: "y \<le> of_int N \<Longrightarrow> round_he y \<le> N"
proof -
  assume a: "y \<le> of_int N"
  show ?thesis
  proof (cases "y = of_int N")
    case True
    then show ?thesis by (simp add: round_he_of_int)
  next
    case False
    with a have "y < of_int N" by simp
    then have "\<lfloor>y\<rfloor> < N" by (simp add: floor_less_iff)
    then have "\<lfloor>y\<rfloor> + 1 \<le> N" by simp
    then show ?thesis unfolding round_he_def Let_def by auto
  qed
qed

lemma round_he_ge: "of_int N \<le> y \<Longrightarrow> N \<le> round_he y"
proof -
  assume "of_int N \<le> y"
  then have "N \<le> \<lfloor>y\<rfloor>" by (simp add: le_floor_iff)
  then show ?thesis unfolding round_he_def Let_def by auto
qed

lemma ulp64_pos: "0 < ulp64 x"
  by (simp add: ulp64_def zero_less_power_int)

lemma ulp64_bound:
  assumes "\<bar>x\<bar> \<le> 2 powi k" and "- 1022 \<le> k"
  shows "ulp64 x \<le> 2 powi (k - 52) \<and> (\<exists>N::int. 0 \<le> N \<and> 2 powi k = of_int N * ulp64 x)"
proof -
  define y where "y = \<bar>x\<bar> * 2 ^ 1074"
  define e where "e = max (bitlen \<lfloor>y\<rfloor> - 1075) (- 1022)"
  have u: "ulp64 x = 2 powi (e - 52)" by (simp add: ulp64_def e_def y_def)
  have k0: "0 \<le> k + 1074" using assms(2) by simp
  have "y \<le> 2 powi k * 2 powi 1074"
    unfolding y_def using assms(1) by (simp add: mult_right_mono)
  also have "\<dots> = (2::real) powi (k + 1074)" by (simp add: power_int_add)
  also have "\<dots> = 2 ^ nat (k + 1074)" using k0 by (simp add: power_int_def)
  finally have "y \<le> of_int (2 ^ nat (k + 1074))" by simp
  then have "\<lfloor>y\<rfloor> \<le> 2 ^ nat (k + 1074)" by (metis floor_mono floor_of_int)
  also have "\<dots> < (2::int) ^ nat (k + 1075)" using k0 by (simp add: nat_add_distrib)
  finally have "bitlen \<lfloor>y\<rfloor> \<le> k + 1075"
    using k0 by (simp add: bitlen_le_iff_power)
  with assms(2) have ek: "e \<le> k" by (simp add: e_def)
  have 1: "ulp64 x \<le> 2 powi (k - 52)"
    unfolding u using ek by (intro power_int_increasing) simp_all
  have n: "0 \<le> k - e" using ek by simp
  have "(2::real) powi k = 2 powi ((k - e + 52) + (e - 52))" by simp
  also have "\<dots> = 2 powi (k - e + 52) * 2 powi (e - 52)" by (rule power_int_add) simp
  also have "(2::real) powi (k - e + 52) = of_int (2 ^ nat (k - e + 52))"
    using n by (simp add: power_int_def)
  finally have "2 powi k = of_int (2 ^ nat (k - e + 52)) * ulp64 x" by (simp add: u)
  moreover have "(0::int) \<le> 2 ^ nat (k - e + 52)" by simp
  ultimately show ?thesis using 1 by blast
qed

lemma fl64_bound:
  assumes "\<bar>x\<bar> \<le> 2 powi k" and "- 1022 \<le> k" and "k \<le> 1023"
  shows "\<exists>r. fl64 x = Float64 r \<and> \<bar>r - x\<bar> \<le> 2 powi (k - 53) \<and> \<bar>r\<bar> \<le> 2 powi k"
proof -
  define u where "u = ulp64 x"
  define n where "n = round_he (x / u)"
  have up: "0 < u" by (simp add: u_def ulp64_pos)
  from ulp64_bound [OF assms(1,2)] obtain N :: int
    where ub: "u \<le> 2 powi (k - 52)" and N: "0 \<le> N" "2 powi k = of_int N * u"
    by (auto simp: u_def)
  have "\<bar>x\<bar> \<le> of_int N * u" using assms(1) N by simp
  then have d: "\<bar>x\<bar> / u \<le> of_int N" using up by (simp add: pos_divide_le_eq)
  have au: "\<bar>u\<bar> = u" using up by (rule abs_of_pos)
  have "\<bar>x / u\<bar> = \<bar>x\<bar> / u" by (simp only: abs_divide au)
  with d have "\<bar>x / u\<bar> \<le> of_int N" by (simp only:)
  then have "x / u \<le> of_int N" "- of_int N \<le> x / u" by linarith+
  then have b: "x / u \<le> of_int N" "of_int (- N) \<le> x / u" by simp_all
  have "n \<le> N" "- N \<le> n"
    unfolding n_def using round_he_le [OF b(1)] round_he_ge [OF b(2)] by simp_all
  then have "\<bar>real_of_int n\<bar> \<le> of_int N" by linarith
  then have "\<bar>real_of_int n\<bar> * u \<le> of_int N * u" using up by (simp add: mult_right_mono)
  then have r1: "\<bar>of_int n * u\<bar> \<le> 2 powi k" using up N by (simp add: abs_mult)
  have "(2::real) powi k \<le> 2 powi 1023" using assms(3) by (intro power_int_increasing) simp_all
  also have "\<dots> < (2::real) ^ 1024" by simp
  finally have r2: "\<not> \<bar>of_int n * u\<bar> \<ge> 2 ^ 1024" using r1 by linarith
  have "\<bar>of_int n - x / u\<bar> \<le> 1 / 2" unfolding n_def by (rule round_he_error)
  then have "\<bar>of_int n - x / u\<bar> * u \<le> 1 / 2 * u" using up by (simp add: mult_right_mono)
  moreover have "\<bar>of_int n - x / u\<bar> * u = \<bar>of_int n * u - x\<bar>"
  proof -
    have "\<bar>of_int n - x / u\<bar> * u = \<bar>of_int n - x / u\<bar> * \<bar>u\<bar>" by (simp only: au)
    also have "\<dots> = \<bar>(of_int n - x / u) * u\<bar>" by (simp only: abs_mult)
    also have "(of_int n - x / u) * u = of_int n * u - x" using up by (simp add: algebra_simps)
    finally show ?thesis .
  qed
  moreover have "1 / 2 * u \<le> 1 / 2 * 2 powi (k - 52)" using ub by simp
  moreover have "1 / 2 * (2::real) powi (k - 52) = 2 powi (k - 53)"
    by (simp add: power_int_diff)
  ultimately have r3: "\<bar>of_int n * u - x\<bar> \<le> 2 powi (k - 53)" by linarith
  have "fl64 x = Float64 (of_int n * u)"
    using r2 by (simp add: fl64_def Let_def n_def u_def)
  with r1 r3 show ?thesis by blast
qed

lemma fl64_zero: "fl64 0 = Float64 0"
  by (simp add: fl64_def ulp64_def round_he_def)

lemma ulp64_eval:
  assumes "2 powi k \<le> \<bar>x\<bar>" and "\<bar>x\<bar> < 2 powi (k + 1)" and "- 1022 \<le> k"
  shows "ulp64 x = 2 powi (k - 52)"
proof -
  define y where "y = \<bar>x\<bar> * 2 ^ 1074"
  have k0: "0 \<le> k + 1074" using assms(3) by simp
  have "y < 2 powi (k + 1) * 2 powi 1074"
    unfolding y_def using assms(2) by simp
  also have "\<dots> = (2::real) powi (k + 1075)" by (simp add: power_int_add)
  also have "\<dots> = 2 ^ nat (k + 1075)" using k0 by (simp add: power_int_def)
  finally have "y < of_int (2 ^ nat (k + 1075))" by simp
  then have "\<lfloor>y\<rfloor> < 2 ^ nat (k + 1075)" by (simp add: floor_less_iff)
  then have 1: "bitlen \<lfloor>y\<rfloor> \<le> k + 1075"
    using k0 by (simp add: bitlen_le_iff_power)
  have "(2::real) ^ nat (k + 1074) = 2 powi (k + 1074)" using k0 by (simp add: power_int_def)
  also have "\<dots> = 2 powi k * 2 powi 1074" by (simp add: power_int_add)
  also have "\<dots> \<le> y" unfolding y_def using assms(1) by simp
  finally have "of_int (2 ^ nat (k + 1074)) \<le> y" by simp
  then have "2 ^ nat (k + 1074) \<le> \<lfloor>y\<rfloor>" by (simp only: le_floor_iff)
  moreover have "nat (k + 1075) - 1 = nat (k + 1074)" using k0 by simp
  ultimately have 2: "k + 1075 \<le> bitlen \<lfloor>y\<rfloor>"
    by (simp add: bitlen_ge_iff_power)
  from 1 2 have "bitlen \<lfloor>y\<rfloor> = k + 1075" by simp
  then show ?thesis using assms(3) by (simp add: ulp64_def y_def)
qed

lemma fl64_eval:
  assumes "2 powi k \<le> \<bar>x\<bar>" and "\<bar>x\<bar> < 2 powi (k + 1)" and "- 1022 \<le> k" and "k \<le> 1022"
  shows "fl64 x = Float64 (of_int (round_he (x / 2 powi (k - 52))) * 2 powi (k - 52))"
proof -
  have "\<bar>x\<bar> \<le> 2 powi (k + 1)" using assms(2) by simp
  from fl64_bound [OF this] assms(3,4) obtain r where "fl64 x = Float64 r" by auto
  then show ?thesis
    by (simp add: fl64_def Let_def ulp64_eval [OF assms(1-3)] split: if_splits)
qed

lemma fl64_weights:
  "fl64 0.25 = Float64 0.25"
  "fl64 0.20 = Float64 (3602879701896397 / 2 ^ 54)"
  "fl64 0.15 = Float64 (5404319552844595 / 2 ^ 55)"
  "fl64 0.10 = Float64 (3602879701896397 / 2 ^ 55)"
  by (simp_all add: fl64_eval [where k = "-2"] fl64_eval [where k = "-3"]
      fl64_eval [where k = "-4"] round_he_def)










lemmas fl64_numeral =
  fl64_eval [where k = "- 5"] fl64_eval [where k = 0] fl64_eval [where k = 2] fl64_eval [where k = 3]
  fl64_eval [where k = 4] fl64_eval [where k = 5] fl64_eval [where k = 6]
  fl64_eval [where k = 7] fl64_eval [where k = 9]

lemma fl64_weights_normal:
  "fl64 (1 / 4) = Float64 (1 / 4)"
  "fl64 (1 / 5) = Float64 (3602879701896397 / 2 ^ 54)"
  "fl64 (3 / 20) = Float64 (5404319552844595 / 2 ^ 55)"
  "fl64 (1 / 10) = Float64 (3602879701896397 / 2 ^ 55)"
  using fl64_weights by simp_all

lemmas score_eval =
  calcular_score_calidad_def peso_def QUALITY_WEIGHTS_def Let_def fsub_def py_max_def py_min_def
  fl64_zero fl64_weights_normal fl64_numeral round_he_def

text \<open>
  The model on two inputs. With a completeness of 4.6 (the double nearest to it) and one
  strategy, the sum of the doubles is 25.349999999999998 and the score 25.3, where the exact
  sum 25.35 would round to 25.4. With a completeness of 0.2 the sum is the double nearest to
  23.05, which lies above 23.05: a Python float rounds to 23.1, a \<open>numpy.float64\<close> to 23.0.
\<close>

lemma score_binary_rounding:
  "calcular_score_calidad PythonFloat QUALITY_WEIGHTS
     \<lparr>completitud_total = 2589569785738035 / 2 ^ 49, indice_complejidad = 0,
      desviacion_estandar = 0, porcentaje_cobertura = 0, num_estrategias_unicas = 1\<rparr> =
     Inr (Float64 (7121316910779597 / 2 ^ 48))"
  by (simp add: score_eval)

lemma score_round_by_type:
  "calcular_score_calidad PythonFloat QUALITY_WEIGHTS
     \<lparr>completitud_total = 3602879701896397 / 2 ^ 54, indice_complejidad = 0,
      desviacion_estandar = 0, porcentaje_cobertura = 0, num_estrategias_unicas = 0\<rparr> =
     Inr (Float64 (3251035981008077 / 2 ^ 47))"
  "calcular_score_calidad NumpyFloat64 QUALITY_WEIGHTS
     \<lparr>completitud_total = 3602879701896397 / 2 ^ 54, indice_complejidad = 0,
      desviacion_estandar = 0, porcentaje_cobertura = 0, num_estrategias_unicas = 0\<rparr> =
     Inr (Float64 23)"
  by (simp_all add: score_eval)




section \<open>Properties of the subject similarity\<close>

lemma np_argmax_max:
  assumes "xs \<noteq> []"
  shows "np_argmax xs < length xs \<and> xs ! np_argmax xs = Max (set xs)"
proof -
  have "Max (set xs) \<in> set xs" using assms by simp
  then have "takeWhile (\<lambda>x. x \<noteq> Max (set xs)) xs \<noteq> xs"
    by (auto simp: takeWhile_eq_all_conv)
  then have lt: "np_argmax xs < length xs"
    unfolding np_argmax_def
    by (metis length_takeWhile_le le_neq_implies_less takeWhile_eq_take take_all_iff linorder_not_less)
  from nth_length_takeWhile [of "\<lambda>x. x \<noteq> Max (set xs)" xs] lt
  show ?thesis by (simp add: np_argmax_def)
qed

lemma length_concat_uniform:
  "\<forall>row \<in> set M. length row = n \<Longrightarrow> length (concat M) = length M * n"
  by (induction M) auto

lemma nth_concat_uniform:
  "\<forall>row \<in> set M. length row = n \<Longrightarrow> k < length M * n \<Longrightarrow>
   concat M ! k = M ! (k div n) ! (k mod n)"
proof (induction M arbitrary: k)
  case Nil
  then show ?case by simp
next
  case (Cons r M)
  then have n: "0 < n" by (cases n) auto
  show ?case
  proof (cases "k < n")
    case True
    with Cons.prems show ?thesis by (simp add: nth_append)
  next
    case False
    then have kn: "n \<le> k" by simp
    with Cons.prems have "k - n < length M * n" by auto
    with Cons have ih: "concat M ! (k - n) = M ! ((k - n) div n) ! ((k - n) mod n)" by simp
    have d: "k div n = Suc ((k - n) div n)" using kn n by (simp add: le_div_geq)
    have m: "k mod n = (k - n) mod n" using kn by (simp add: le_mod_geq)
    show ?thesis using Cons.prems False ih by (simp add: nth_append d m)
  qed
qed

lemma dot_nonneg:
  assumes "\<forall>v \<in> set x. 0 \<le> v" and "\<forall>v \<in> set y. 0 \<le> v"
  shows "0 \<le> dot x y"
  unfolding dot_def
proof (rule sum_list_nonneg)
  fix p assume "p \<in> set (map2 (\<lambda>a b. a * b) x y)"
  then obtain a b where "(a, b) \<in> set (zip x y)" and p: "p = a * b" by auto
  then have "a \<in> set x" "b \<in> set y" by (auto dest: set_zip_leftD set_zip_rightD)
  with assms p show "0 \<le> p" by simp
qed

lemma l2_normalize_nonneg:
  assumes "\<forall>v \<in> set x. 0 \<le> v"
  shows "\<forall>v \<in> set (l2_normalize x). 0 \<le> v"
proof -
  have "0 \<le> sqrt (dot x x)" using dot_nonneg [OF assms assms] by simp
  then have "0 \<le> v / (if sqrt (dot x x) = 0 then 1 else sqrt (dot x x))" if "v \<in> set x" for v
    using assms that by (simp add: divide_nonneg_nonneg)
  then show ?thesis by (auto simp: l2_normalize_def Let_def)
qed

lemma length_cosine_similarity [simp]: "length (cosine_similarity X) = length X"
  by (simp add: cosine_similarity_def Let_def)

lemma nth_cosine_similarity:
  "i < length X \<Longrightarrow> cosine_similarity X ! i =
     map (\<lambda>y. dot (l2_normalize (X ! i)) y) (map l2_normalize X)"
  by (simp add: cosine_similarity_def Let_def)

lemma cosine_similarity_nonneg:
  assumes "\<forall>x \<in> set X. \<forall>v \<in> set x. 0 \<le> v" and "i < length X" and "j < length X"
  shows "0 \<le> cosine_similarity X ! i ! j"
proof -
  have "X ! i \<in> set X" "X ! j \<in> set X" using assms(2,3) by simp_all
  with assms(1) have xi: "\<forall>v \<in> set (X ! i). 0 \<le> v" and xj: "\<forall>v \<in> set (X ! j). 0 \<le> v"
    by blast+
  have "\<forall>v \<in> set (l2_normalize (X ! i)). 0 \<le> v" "\<forall>v \<in> set (l2_normalize (X ! j)). 0 \<le> v"
    using l2_normalize_nonneg [OF xi] l2_normalize_nonneg [OF xj] by blast+
  then show ?thesis
    using assms(2,3) by (simp add: nth_cosine_similarity dot_nonneg)
qed

lemma length_fill_diagonal [simp]: "length (fill_diagonal M v) = length M"
  by (simp add: fill_diagonal_def)

lemma nth_fill_diagonal: "i < length M \<Longrightarrow> fill_diagonal M v ! i = (M ! i)[i := v]"
  by (simp add: fill_diagonal_def)

lemma in_off_diagonal:
  "a \<in> set (off_diagonal M) \<longleftrightarrow>
     (\<exists>i \<in> {0..<length M}. \<exists>j \<in> {0..<length M}. i \<noteq> j \<and> a = M ! i ! j)"
  by (auto simp: off_diagonal_def)

lemma in_row_update:
  assumes "i < length row"
  shows "a \<in> set (row[i := v]) \<longleftrightarrow> a = v \<or> (\<exists>j \<in> {0..<length row}. i \<noteq> j \<and> a = row ! j)"
proof
  assume "a \<in> set (row[i := v])"
  then obtain j where j: "j < length row" "a = row[i := v] ! j"
    by (auto simp: in_set_conv_nth)
  show "a = v \<or> (\<exists>j \<in> {0..<length row}. i \<noteq> j \<and> a = row ! j)"
  proof (cases "i = j")
    case True
    with j show ?thesis by simp
  next
    case False
    with j have "a = row ! j" by simp
    with False j(1) show ?thesis by auto
  qed
next
  assume "a = v \<or> (\<exists>j \<in> {0..<length row}. i \<noteq> j \<and> a = row ! j)"
  then show "a \<in> set (row[i := v])"
  proof
    assume "a = v"
    with assms show ?thesis by (simp add: set_update_memI)
  next
    assume "\<exists>j \<in> {0..<length row}. i \<noteq> j \<and> a = row ! j"
    then obtain j where j: "j < length row" "i \<noteq> j" "a = row ! j" by auto
    then have "row[i := v] ! j = a" by simp
    with j(1) show ?thesis by (metis length_list_update nth_mem)
  qed
qed

lemma in_concat_fill_diagonal:
  assumes sq: "\<forall>i < length M. length (M ! i) = length M" and ne: "M \<noteq> []"
  shows "a \<in> set (concat (fill_diagonal M v)) \<longleftrightarrow> a = v \<or> a \<in> set (off_diagonal M)"
proof -
  let ?n = "length M"
  have "a \<in> set (concat (fill_diagonal M v)) \<longleftrightarrow> (\<exists>i \<in> {0..<?n}. a \<in> set ((M ! i)[i := v]))"
    by (auto simp: fill_diagonal_def)
  also have "\<dots> \<longleftrightarrow> (\<exists>i \<in> {0..<?n}. a = v \<or> (\<exists>j \<in> {0..<?n}. i \<noteq> j \<and> a = M ! i ! j))"
    using sq by (intro bex_cong refl) (simp add: in_row_update)
  also have "\<dots> \<longleftrightarrow> a = v \<or> (\<exists>i \<in> {0..<?n}. \<exists>j \<in> {0..<?n}. i \<noteq> j \<and> a = M ! i ! j)"
  proof -
    have "0 \<in> {0..<?n}" using ne by simp
    then show ?thesis by blast
  qed
  finally show ?thesis by (simp only: in_off_diagonal)
qed



lemma square_cosine_similarity:
  "\<forall>i < length (cosine_similarity X). length (cosine_similarity X ! i) = length (cosine_similarity X)"
  by (simp add: nth_cosine_similarity)

lemma rows_fill_diagonal:
  assumes "\<forall>i < length M. length (M ! i) = length M"
  shows "\<forall>row \<in> set (fill_diagonal M v). length row = length M"
  using assms by (auto simp: fill_diagonal_def)

lemma Max_concat_fill_diagonal:
  assumes sq: "\<forall>i < length M. length (M ! i) = length M"
    and n: "2 \<le> length M"
    and nonneg: "\<forall>i < length M. \<forall>j < length M. 0 \<le> M ! i ! j"
  shows "Max (set (concat (fill_diagonal M 0))) = Max (set (off_diagonal M))"
proof -
  have ne: "M \<noteq> []" using n by auto
  have set_eq: "set (concat (fill_diagonal M 0)) = insert 0 (set (off_diagonal M))"
    using in_concat_fill_diagonal [OF sq ne, of _ 0] by auto
  have el: "M ! 0 ! 1 \<in> set (off_diagonal M)"
    unfolding in_off_diagonal using n by (intro bexI [of _ 0] bexI [of _ 1]) auto
  then have off_ne: "set (off_diagonal M) \<noteq> {}" by auto
  have off_nonneg: "0 \<le> a" if "a \<in> set (off_diagonal M)" for a
    using that nonneg unfolding in_off_diagonal by auto
  have "0 \<le> M ! 0 ! 1" using off_nonneg [OF el] .
  also have "M ! 0 ! 1 \<le> Max (set (off_diagonal M))" using el by simp
  finally have "0 \<le> Max (set (off_diagonal M))" .
  then show ?thesis
    unfolding set_eq using off_ne by (simp add: max_def)
qed

lemma similitud_asignaturas_Some:
  assumes "2 < length df"
  shows "similitud_asignaturas df =
     Some \<lparr>asignatura1 = fst (df ! (np_argmax (concat (fill_diagonal (cosine_similarity (map snd df)) 0)) div length df)),
           asignatura2 = fst (df ! (np_argmax (concat (fill_diagonal (cosine_similarity (map snd df)) 0)) mod length df)),
           similitud = Max (set (concat (fill_diagonal (cosine_similarity (map snd df)) 0)))\<rparr>"
proof -
  let ?C = "cosine_similarity (map snd df)"
  let ?S = "fill_diagonal ?C 0"
  let ?n = "length df"
  let ?k = "np_argmax (concat ?S)"
  have rows: "\<forall>row \<in> set ?S. length row = ?n"
    using rows_fill_diagonal [OF square_cosine_similarity, of "map snd df" 0] by simp
  have len: "length (concat ?S) = ?n * ?n"
    using length_concat_uniform [OF rows] by simp
  have "concat ?S \<noteq> []"
  proof
    assume "concat ?S = []"
    then have "length (concat ?S) = 0" by (simp only: list.size)
    with len assms show False by simp
  qed
  from np_argmax_max [OF this]
  have k: "?k < ?n * ?n" and mx: "concat ?S ! ?k = Max (set (concat ?S))"
    using len by simp_all
  have "concat ?S ! ?k = ?S ! (?k div ?n) ! (?k mod ?n)"
    using nth_concat_uniform [OF rows, of ?k] k by simp
  with mx have "?S ! (?k div ?n) ! (?k mod ?n) = Max (set (concat ?S))" by simp
  then show ?thesis
    using assms by (simp add: similitud_asignaturas_def Let_def)
qed

text \<open>
  C9. The rows that the vectorizer gives are not negative (TF-IDF weights). With exactly
  2 subjects no similarity result is produced. With 3 or more subjects the pair is
  reported, and its score is the maximum over all entries of the pairwise cosine
  similarity matrix outside the diagonal.
\<close>

theorem C9_similitud_asignaturas:
  assumes "\<forall>p \<in> set df. \<forall>v \<in> set (snd p). 0 \<le> v"
  shows "(length df = 2 \<longrightarrow> similitud_asignaturas df = None) \<and>
     (3 \<le> length df \<longrightarrow>
        (\<exists>r. similitud_asignaturas df = Some r \<and>
             similitud r = Max (set (off_diagonal (cosine_similarity (map snd df))))))"
proof (intro conjI impI)
  assume "length df = 2"
  then show "similitud_asignaturas df = None"
    by (simp add: similitud_asignaturas_def)
next
  assume n: "3 \<le> length df"
  let ?C = "cosine_similarity (map snd df)"
  have nonneg: "\<forall>i < length ?C. \<forall>j < length ?C. 0 \<le> ?C ! i ! j"
    using assms by (intro allI impI cosine_similarity_nonneg) auto
  have "Max (set (concat (fill_diagonal ?C 0))) = Max (set (off_diagonal ?C))"
    using n by (intro Max_concat_fill_diagonal square_cosine_similarity nonneg) simp
  moreover have "2 < length df" using n by simp
  ultimately show "\<exists>r. similitud_asignaturas df = Some r \<and>
      similitud r = Max (set (off_diagonal (cosine_similarity (map snd df))))"
    by (simp add: similitud_asignaturas_Some)
qed

lemma off_diagonal_ejemplo:
  "off_diagonal (cosine_similarity [[1, 0], [0, 1], [1, 0]]) = [0, 1, 0, 0, 1, 0]"
  by (simp add: off_diagonal_def cosine_similarity_def l2_normalize_def dot_def Let_def)

theorem C9_similitud_asignaturas_witness:
  "length [(''Algebra'', [1, 0 :: real]), (''Historia'', [0, 1])] = 2 \<and>
   similitud_asignaturas [(''Algebra'', [1, 0]), (''Historia'', [0, 1])] = None \<and>
   3 \<le> length [(''Algebra'', [1, 0 :: real]), (''Historia'', [0, 1]), (''Calculo'', [1, 0])] \<and>
   (\<exists>r. similitud_asignaturas [(''Algebra'', [1, 0]), (''Historia'', [0, 1]), (''Calculo'', [1, 0])]
          = Some r \<and> similitud r = 1)"
proof -
  have a: "\<forall>p \<in> set [(''Algebra'', [1, 0 :: real]), (''Historia'', [0, 1])].
      \<forall>v \<in> set (snd p). 0 \<le> v"
    by simp
  have b: "\<forall>p \<in> set [(''Algebra'', [1, 0 :: real]), (''Historia'', [0, 1]), (''Calculo'', [1, 0])].
      \<forall>v \<in> set (snd p). 0 \<le> v"
    by simp
  show ?thesis
    using C9_similitud_asignaturas [OF a] C9_similitud_asignaturas [OF b]
    by (simp add: off_diagonal_ejemplo)
qed


section \<open>Properties of the thematic diversity index\<close>

subsection \<open>The counter\<close>

lemma fst_counter_add: "set (map fst (counter_add c x)) = insert x (set (map fst c))"
  by (induction c x rule: counter_add.induct) auto

lemma distinct_counter_add: "distinct (map fst c) \<Longrightarrow> distinct (map fst (counter_add c x))"
proof (induction c x rule: counter_add.induct)
  case (1 x)
  then show ?case by simp
next
  case (2 k n c x)
  then show ?case
    using fst_counter_add [of c x] by auto
qed

lemma positive_counter_add:
  "\<forall>n \<in> set (map snd c). 0 < n \<Longrightarrow> \<forall>n \<in> set (map snd (counter_add c x)). 0 < n"
  by (induction c x rule: counter_add.induct) auto

lemma foldl_counter_add:
  "distinct (map fst c) \<Longrightarrow> \<forall>n \<in> set (map snd c). 0 < n \<Longrightarrow>
   distinct (map fst (foldl counter_add c xs)) \<and>
   set (map fst (foldl counter_add c xs)) = set (map fst c) \<union> set xs \<and>
   (\<forall>n \<in> set (map snd (foldl counter_add c xs)). 0 < n)"
proof (induction xs arbitrary: c)
  case Nil
  then show ?case by simp
next
  case (Cons x xs)
  from Cons.IH [OF distinct_counter_add [OF Cons.prems(1)] positive_counter_add [OF Cons.prems(2)], of x]
  show ?case using fst_counter_add [of c x] by auto
qed

lemma Counter_keys: "distinct (map fst (Counter xs))" "set (map fst (Counter xs)) = set xs"
  using foldl_counter_add [of "[]" xs] by (simp_all add: Counter_def)

lemma Counter_positive: "\<forall>n \<in> set (map snd (Counter xs)). 0 < n"
  using foldl_counter_add [of "[]" xs] by (simp add: Counter_def)

lemma length_Counter: "length (Counter xs) = card (set xs)"
proof -
  have "card (set xs) = card (set (map fst (Counter xs)))" by (simp only: Counter_keys)
  also have "\<dots> = length (map fst (Counter xs))" using Counter_keys(1) by (rule distinct_card)
  finally show ?thesis by simp
qed

subsection \<open>The entropy of a distribution\<close>

lemma gap_nonneg:
  assumes "0 < p" and "0 < c"
  shows "0 \<le> gap c p"
proof -
  have x: "0 < 1 / (c * p)" using assms by simp
  have "ln (1 / (c * p)) \<le> 1 / (c * p) - 1" using x by (rule ln_le_minus_one)
  moreover have "ln (1 / (c * p)) = - (ln c + ln p)"
    using assms by (simp add: ln_div ln_mult)
  ultimately have "- (ln c + ln p) \<le> 1 / (c * p) - 1" by simp
  then have "p * (- (ln c + ln p)) \<le> p * (1 / (c * p) - 1)"
    using assms(1) by (simp only: mult_le_cancel_left_pos)
  moreover have "p * (1 / (c * p) - 1) = 1 / c - p"
    using assms by (simp add: field_simps)
  ultimately have "- p * ln p - p * ln c \<le> 1 / c - p"
    by (simp add: algebra_simps)
  then show ?thesis using assms(1) by (simp add: gap_def entr_def)
qed

lemma gap_zero:
  assumes "0 < p" and "0 < c" and "gap c p = 0"
  shows "p = 1 / c"
proof -
  have x: "0 < 1 / (c * p)" using assms by simp
  have l: "ln (1 / (c * p)) = - (ln c + ln p)"
    using assms by (simp add: ln_div ln_mult)
  from assms(1,3) have "- p * ln p - p * ln c = 1 / c - p"
    by (simp add: gap_def entr_def)
  moreover have "p * (1 / (c * p) - 1) = 1 / c - p"
    using assms by (simp add: field_simps)
  moreover have "p * (- (ln c + ln p)) = - p * ln p - p * ln c"
    by (simp add: algebra_simps)
  ultimately have "p * (- (ln c + ln p)) = p * (1 / (c * p) - 1)"
    by (simp only:)
  then have "- (ln c + ln p) = 1 / (c * p) - 1"
    using assms(1) by simp
  with l have "ln (1 / (c * p)) = 1 / (c * p) - 1" by simp
  from ln_eq_minus_one [OF x this] have "c * p = 1" by simp
  then show ?thesis using assms(2) by (simp add: field_simps)
qed

lemma sum_list_gap:
  "sum_list (map (gap c) ps) =
     real (length ps) / c - sum_list ps - sum_list (map entr ps) + ln c * sum_list ps"
  by (induction ps) (simp_all add: gap_def algebra_simps add_divide_distrib)

lemma entr_sum:
  assumes pos: "\<forall>p \<in> set ps. 0 < p" and one: "sum_list ps = 1" and ne: "ps \<noteq> []"
  shows "ln (real (length ps)) - sum_list (map entr ps) = sum_list (map (gap (real (length ps))) ps)"
  using ne by (simp add: sum_list_gap one)

lemma entr_sum_le:
  assumes pos: "\<forall>p \<in> set ps. 0 < p" and one: "sum_list ps = 1" and ne: "ps \<noteq> []"
  shows "sum_list (map entr ps) \<le> ln (real (length ps))"
proof -
  have "0 \<le> sum_list (map (gap (real (length ps))) ps)"
  proof (rule sum_list_nonneg)
    fix g assume "g \<in> set (map (gap (real (length ps))) ps)"
    then obtain p where "p \<in> set ps" "g = gap (real (length ps)) p" by auto
    with pos ne show "0 \<le> g" by (simp add: gap_nonneg)
  qed
  with entr_sum [OF assms] show ?thesis by simp
qed

lemma entr_sum_eq:
  assumes pos: "\<forall>p \<in> set ps. 0 < p" and one: "sum_list ps = 1" and ne: "ps \<noteq> []"
    and eq: "sum_list (map entr ps) = ln (real (length ps))"
  shows "\<forall>p \<in> set ps. p = 1 / real (length ps)"
proof
  fix p assume p: "p \<in> set ps"
  have nonneg: "0 \<le> g" if "g \<in> set (map (gap (real (length ps))) ps)" for g
  proof -
    from that obtain q where "q \<in> set ps" "g = gap (real (length ps)) q" by auto
    with pos ne show ?thesis by (simp add: gap_nonneg)
  qed
  have "sum_list (map (gap (real (length ps))) ps) = 0"
    using entr_sum [OF pos one ne] eq by simp
  then have "\<forall>g \<in> set (map (gap (real (length ps))) ps). g = 0"
    using sum_list_nonneg_eq_0_iff [of "map (gap (real (length ps))) ps"] nonneg by blast
  with p have "gap (real (length ps)) p = 0" by simp
  moreover have "0 < p" using pos p by blast
  moreover have "0 < real (length ps)" using ne by simp
  ultimately show "p = 1 / real (length ps)" by (intro gap_zero)
qed

lemma entr_nonneg: "0 \<le> p \<Longrightarrow> p \<le> 1 \<Longrightarrow> 0 \<le> entr p"
  by (cases "p = 0") (simp_all add: entr_def mult_nonneg_nonpos)

lemma entr_sum_nonneg:
  assumes pos: "\<forall>p \<in> set ps. 0 < p" and one: "sum_list ps = 1"
  shows "0 \<le> sum_list (map entr ps)"
proof (rule sum_list_nonneg)
  fix e assume "e \<in> set (map entr ps)"
  then obtain p where p: "p \<in> set ps" "e = entr p" by auto
  have "p \<le> sum_list ps"
    using pos p(1) by (intro member_le_sum_list) (auto intro: less_imp_le)
  with one pos p show "0 \<le> e" by (simp add: entr_nonneg less_imp_le)
qed


subsection \<open>The guarded index\<close>

lemma sum_list_divide:
  "sum_list (map (\<lambda>f. real f / c) fs) = real (sum_list fs) / c"
  by (induction fs) (simp_all add: add_divide_distrib)

lemma probabilidades:
  assumes "fs \<noteq> []" and "\<forall>f \<in> set fs. 0 < f"
  shows "\<forall>p \<in> set (map (\<lambda>f. real f / real (sum_list fs)) fs). 0 < p"
    and "sum_list (map (\<lambda>f. real f / real (sum_list fs)) fs) = 1"
proof -
  obtain f where f: "f \<in> set fs" using assms(1) by (cases fs) auto
  then have "f \<le> sum_list fs" by (simp add: member_le_sum_list)
  moreover have "0 < f" using assms(2) f by blast
  ultimately have N: "0 < sum_list fs" by simp
  show "\<forall>p \<in> set (map (\<lambda>f. real f / real (sum_list fs)) fs). 0 < p"
    using assms(2) N by auto
  have "real (sum_list fs) \<noteq> 0" using N by (simp only: of_nat_0_less_iff [symmetric])
  then have "real (sum_list fs) / real (sum_list fs) = 1" by (rule divide_self)
  then show "sum_list (map (\<lambda>f. real f / real (sum_list fs)) fs) = 1"
    by (simp only: sum_list_divide)
qed

lemma diversidad_guarded:
  assumes "1 < length (Counter xs)"
  shows "diversidad xs =
     Finite (sum_list (map entr (map (\<lambda>f. real f / real (sum_list (map snd (Counter xs))))
                                     (map snd (Counter xs))))
             / ln (real (length (Counter xs))) * 100)"
proof -
  have "0 < ln (real (length (Counter xs)))" using assms by (simp add: ln_gt_zero)
  then have "log 2 (real (length (Counter xs))) \<noteq> 0" by (simp add: log_def)
  then show ?thesis
    using assms by (simp add: diversidad_def Let_def np_log2_def entropy_def log_def comp_def)
qed

lemma diversidad_few: "card (set xs) < 2 \<Longrightarrow> diversidad xs = Finite 0"
  by (simp add: diversidad_def Let_def length_Counter)

lemma diversidad_bounds: "\<exists>x. diversidad xs = Finite x \<and> 0 \<le> x \<and> x \<le> 100"
proof (cases "1 < length (Counter xs)")
  case False
  then show ?thesis by (simp add: diversidad_def Let_def)
next
  case True
  let ?fs = "map snd (Counter xs)"
  let ?ps = "map (\<lambda>f. real f / real (sum_list ?fs)) ?fs"
  have ne: "?fs \<noteq> []" using True by auto
  note p = probabilidades [OF ne Counter_positive]
  have pne: "?ps \<noteq> []" using ne by simp
  have l: "0 < ln (real (length (Counter xs)))" using True by (simp add: ln_gt_zero)
  have lo: "0 \<le> sum_list (map entr ?ps)" using p by (rule entr_sum_nonneg)
  have "sum_list (map entr ?ps) \<le> ln (real (length ?ps))" using p pne by (rule entr_sum_le)
  then have hi: "sum_list (map entr ?ps) \<le> ln (real (length (Counter xs)))" by simp
  have "0 \<le> sum_list (map entr ?ps) / ln (real (length (Counter xs))) * 100"
    using lo l by simp
  moreover have "sum_list (map entr ?ps) / ln (real (length (Counter xs))) * 100 \<le> 100"
    using hi l by (simp add: divide_le_eq)
  ultimately show ?thesis
    unfolding diversidad_guarded [OF True] by blast
qed

lemma share_eq: "N \<noteq> 0 \<Longrightarrow> a / N = 1 / c \<Longrightarrow> a = N / (c::real)"
  by (simp add: field_simps)

lemma diversidad_100:
  assumes "diversidad xs = Finite 100"
  shows "\<forall>f \<in> set (map snd (Counter xs)). \<forall>g \<in> set (map snd (Counter xs)). f = g"
proof (cases "1 < length (Counter xs)")
  case False
  with assms show ?thesis by (simp add: diversidad_def Let_def)
next
  case True
  let ?fs = "map snd (Counter xs)"
  let ?N = "real (sum_list ?fs)"
  let ?ps = "map (\<lambda>f. real f / ?N) ?fs"
  have ne: "?fs \<noteq> []" using True by auto
  note p = probabilidades [OF ne Counter_positive]
  have pne: "?ps \<noteq> []" using ne by simp
  have l: "0 < ln (real (length (Counter xs)))" using True by (simp add: ln_gt_zero)
  define S where "S = sum_list (map entr ?ps)"
  define L where "L = ln (real (length (Counter xs)))"
  have "Finite (S / L * 100) = diversidad xs"
    unfolding S_def L_def by (rule diversidad_guarded [OF True, symmetric])
  also have "\<dots> = Finite 100" by (rule assms)
  finally have "S / L * 100 = 100" by (simp only: npfloat.inject)
  moreover have "0 < L" using l by (simp only: L_def)
  ultimately have "S = L" by (simp add: field_simps)
  then have "sum_list (map entr ?ps) = ln (real (length (Counter xs)))"
    by (simp only: S_def L_def)
  moreover have "length ?ps = length (Counter xs)" by simp
  ultimately have "sum_list (map entr ?ps) = ln (real (length ?ps))" by (simp only:)
  from entr_sum_eq [OF p pne this]
  have eq: "\<forall>q \<in> set ?ps. q = 1 / real (length (Counter xs))" by simp
  have N: "?N \<noteq> 0"
  proof
    assume z: "?N = 0"
    have "sum_list ?ps = real (sum_list ?fs) / ?N" by (rule sum_list_divide)
    with z have "sum_list ?ps = 0" by (simp only: div_by_0)
    with p(2) show False by simp
  qed
  have val: "real f = ?N / real (length (Counter xs))" if "f \<in> set ?fs" for f
  proof -
    from that have "real f / ?N \<in> set ?ps" by (rule imageI [of f "set ?fs" "\<lambda>f. real f / ?N", unfolded set_map [symmetric]])
    with eq have "real f / ?N = 1 / real (length (Counter xs))" by blast
    with N show ?thesis by (rule share_eq)
  qed
  show ?thesis
  proof (intro ballI)
    fix f g assume "f \<in> set ?fs" "g \<in> set ?fs"
    then have "real f = real g" using val by simp
    then show "f = g" by simp
  qed
qed


subsection \<open>The index on a single tag\<close>

lemma Counter_replicate: "foldl counter_add [(t, n)] (replicate m t) = [(t, n + m)]"
  by (induction m arbitrary: n) simp_all

lemma Counter_un_nucleo: "Counter (replicate (Suc n) t) = [(t, Suc n)]"
  using Counter_replicate [of t 1 n] by (simp add: Counter_def)

text \<open>
  C3. Where every tag found is the same tag (one distinct tag, any number of occurrences),
  the index of \<open>analisis_cobertura_tematica\<close> is NaN, not 0: the entropy 0 is divided by the
  maximum entropy \<open>log2(1) = 0\<close>. The index of \<open>analizar_cobertura\<close>, which has the guard, is
  0 on the same input.
\<close>

theorem C3_diversidad_un_nucleo:
  "indice_diversidad (replicate (Suc n) nucleo) = NaN \<and>
   diversidad (replicate (Suc n) nucleo) = Finite 0"
  by (simp add: indice_diversidad_def diversidad_def Counter_un_nucleo entropy_def entr_def
      np_log2_def del: replicate.simps)

end
